theory Spec2Isabelle
  imports Complex_Main
begin

text \<open>
  A shallow embedding of \<^verbatim>\<open>src/Engine/FormulaEvaluator.ts\<close>: the class
  \<^verbatim>\<open>FormulaEvaluator\<close>, which evaluates a formula given as a list of tokens with two
  stacks. The object is a record, a call of \<^verbatim>\<open>evaluate\<close> maps the object to the object it
  leaves, and a thrown error or a \<^verbatim>\<open>return\<close> is a value that carries the state reached.
  What the class imports and what the engine provides (rounding, the label grammar, the
  cells) is a parameter of the model.
\<close>

section \<open>JavaScript numbers\<close>

text \<open>
  The evaluator computes with JavaScript numbers. A number is a finite value, one of the
  two infinities, or NaN. Finite values are rationals (every double is one); negative
  zero is identified with zero, as \<^verbatim>\<open>===\<close> does.

  Rounding to the nearest double belongs to the engine, not to the repository, so it is
  a parameter: \<open>rnd E q\<close> is the double nearest to the exact rational \<open>q\<close>, or \<open>None\<close>
  when \<open>q\<close> is too large in magnitude and the operation overflows to an infinity.
  Every theorem below that has \<open>E\<close> free holds for any rounding.
\<close>

datatype number = Fin rat | PInf | NInf | NaN

record env =
  rnd :: "rat \<Rightarrow> rat option"
  cellIsValidCellLabel :: "string \<Rightarrow> bool"
  inheritedGE :: "string \<Rightarrow> string \<Rightarrow> bool"

text \<open>
  \<open>cellIsValidCellLabel\<close> is the static \<^verbatim>\<open>Cell.isValidCellLabel\<close> of \<^verbatim>\<open>./Cell\<close>, which the
  evaluator imports; \<open>inheritedGE\<close> is explained at \<open>precedence\<close>.
\<close>

definition signedInf :: "bool \<Rightarrow> number" where
  "signedInf negative = (if negative then NInf else PInf)"

definition fl :: "env \<Rightarrow> rat \<Rightarrow> number" where
  "fl E q = (case rnd E q of Some r \<Rightarrow> Fin r | None \<Rightarrow> signedInf (q < 0))"

definition isNeg :: "number \<Rightarrow> bool" where
  "isNeg x = (case x of Fin q \<Rightarrow> q < 0 | NInf \<Rightarrow> True | _ \<Rightarrow> False)"

definition neg :: "number \<Rightarrow> number" where
  "neg x = (case x of Fin q \<Rightarrow> Fin (- q) | PInf \<Rightarrow> NInf | NInf \<Rightarrow> PInf | NaN \<Rightarrow> NaN)"

text \<open>\<^verbatim>\<open>a + b\<close>: the exact sum, rounded; opposite infinities give NaN.\<close>

definition jsAdd :: "env \<Rightarrow> number \<Rightarrow> number \<Rightarrow> number" where
  "jsAdd E a b =
     (if a = NaN \<or> b = NaN then NaN
      else case (a, b) of
        (Fin x, Fin y) \<Rightarrow> fl E (x + y)
      | (Fin x, _) \<Rightarrow> b
      | (_, Fin y) \<Rightarrow> a
      | (_, _) \<Rightarrow> if a = b then a else NaN)"

text \<open>\<^verbatim>\<open>a - b\<close> is \<^verbatim>\<open>a + (-b)\<close>.\<close>

definition jsSub :: "env \<Rightarrow> number \<Rightarrow> number \<Rightarrow> number" where
  "jsSub E a b = jsAdd E a (neg b)"

text \<open>\<^verbatim>\<open>a * b\<close>: zero times an infinity is NaN.\<close>

definition jsMul :: "env \<Rightarrow> number \<Rightarrow> number \<Rightarrow> number" where
  "jsMul E a b =
     (if a = NaN \<or> b = NaN then NaN
      else case (a, b) of
        (Fin x, Fin y) \<Rightarrow> fl E (x * y)
      | (_, _) \<Rightarrow> if a = Fin 0 \<or> b = Fin 0 then NaN else signedInf (isNeg a \<noteq> isNeg b))"

text \<open>
  \<^verbatim>\<open>a / b\<close>. \<open>compute\<close> only divides by a \<open>b\<close> that is not zero; the zero divisor is
  written out all the same, for a divisor that is positive zero.
\<close>

definition jsDiv :: "env \<Rightarrow> number \<Rightarrow> number \<Rightarrow> number" where
  "jsDiv E a b =
     (if a = NaN \<or> b = NaN then NaN
      else case (a, b) of
        (Fin x, Fin y) \<Rightarrow>
          if y = 0 then (if x = 0 then NaN else signedInf (x < 0)) else fl E (x / y)
      | (Fin x, _) \<Rightarrow> Fin 0
      | (_, Fin y) \<Rightarrow> signedInf (isNeg a \<noteq> (y < 0))
      | (_, _) \<Rightarrow> NaN)"

text \<open>
  \<^verbatim>\<open>x || 0\<close> on a number read from a stack: the falsy numbers (zero and NaN) give 0.
\<close>

definition orZero :: "number \<Rightarrow> number" where
  "orZero v = (if v = NaN \<or> v = Fin 0 then Fin 0 else v)"

section \<open>\<^verbatim>\<open>Number(token)\<close>: string to number\<close>

text \<open>
  The conversion of ECMAScript (StringToNumber). A character is read as the code unit
  of its byte, so tokens range over code units below 256. White space and line
  terminators in that range: TAB, LF, VT, FF, CR, SP, NBSP.
\<close>

definition isStrWhiteSpaceChar :: "char \<Rightarrow> bool" where
  "isStrWhiteSpaceChar c = ((of_char c :: nat) \<in> {9, 10, 11, 12, 13, 32, 160})"

definition trimString :: "string \<Rightarrow> string" where
  "trimString s = rev (dropWhile isStrWhiteSpaceChar (rev (dropWhile isStrWhiteSpaceChar s)))"

definition digitValue :: "char \<Rightarrow> nat option" where
  "digitValue c =
     (let n = (of_char c :: nat) in
      if 48 \<le> n \<and> n \<le> 57 then Some (n - 48)
      else if 97 \<le> n \<and> n \<le> 102 then Some (n - 87)
      else if 65 \<le> n \<and> n \<le> 70 then Some (n - 55)
      else None)"

definition isDigitOf :: "nat \<Rightarrow> char \<Rightarrow> bool" where
  "isDigitOf base c = (case digitValue c of Some d \<Rightarrow> d < base | None \<Rightarrow> False)"

definition digitsValue :: "nat \<Rightarrow> string \<Rightarrow> nat" where
  "digitsValue base cs =
     foldl (\<lambda>acc c. acc * base + (case digitValue c of Some d \<Rightarrow> d | None \<Rightarrow> 0)) 0 cs"

text \<open>NonDecimalIntegerLiteral: \<^verbatim>\<open>0x\<close>, \<^verbatim>\<open>0o\<close>, \<^verbatim>\<open>0b\<close> and one or more digits; no sign.\<close>

definition radixOf :: "char \<Rightarrow> nat option" where
  "radixOf x =
     (if x = CHR ''x'' \<or> x = CHR ''X'' then Some 16
      else if x = CHR ''o'' \<or> x = CHR ''O'' then Some 8
      else if x = CHR ''b'' \<or> x = CHR ''B'' then Some 2
      else None)"

definition nonDecimalIntegerLiteral :: "string \<Rightarrow> nat option" where
  "nonDecimalIntegerLiteral s =
     (case s of
        z # x # ds \<Rightarrow>
          (case radixOf x of
             Some base \<Rightarrow>
               if z = CHR ''0'' \<and> ds \<noteq> [] \<and> list_all (isDigitOf base) ds
               then Some (digitsValue base ds) else None
           | None \<Rightarrow> None)
      | _ \<Rightarrow> None)"

text \<open>The sign that may start a decimal literal or an exponent.\<close>

definition splitSign :: "string \<Rightarrow> bool \<times> string" where
  "splitSign s =
     (case s of
        c # r \<Rightarrow> if c = CHR ''-'' then (True, r) else if c = CHR ''+'' then (False, r) else (False, s)
      | [] \<Rightarrow> (False, []))"

text \<open>ExponentPart, optional: \<^verbatim>\<open>e\<close> or \<^verbatim>\<open>E\<close>, an optional sign, one or more digits.\<close>

definition exponentPart :: "string \<Rightarrow> int option" where
  "exponentPart s =
     (case s of
        [] \<Rightarrow> Some 0
      | e # r \<Rightarrow>
          if e = CHR ''e'' \<or> e = CHR ''E'' then
            (case splitSign r of (negative, ds) \<Rightarrow>
               if ds \<noteq> [] \<and> list_all (isDigitOf 10) ds
               then Some (if negative then - int (digitsValue 10 ds) else int (digitsValue 10 ds))
               else None)
          else None)"

definition scale10 :: "rat \<Rightarrow> int \<Rightarrow> rat" where
  "scale10 m e = (if 0 \<le> e then m * 10 ^ nat e else m / 10 ^ nat (- e))"

text \<open>
  StrUnsignedDecimalLiteral other than \<^verbatim>\<open>Infinity\<close>: digits, an optional point with
  optional digits after it, at least one digit in all, an optional exponent.
\<close>

definition strUnsignedDecimalLiteral :: "string \<Rightarrow> rat option" where
  "strUnsignedDecimalLiteral s =
     (let ip = takeWhile (isDigitOf 10) s;
          r1 = dropWhile (isDigitOf 10) s;
          (fp, r2) = (case r1 of
                        c # r \<Rightarrow> if c = CHR ''.''
                                 then (takeWhile (isDigitOf 10) r, dropWhile (isDigitOf 10) r)
                                 else ([], r1)
                      | [] \<Rightarrow> ([], []))
      in if ip = [] \<and> fp = [] then None
         else case exponentPart r2 of
                None \<Rightarrow> None
              | Some e \<Rightarrow> Some (scale10 (of_nat (digitsValue 10 (ip @ fp))) (e - int (length fp))))"

definition signedDecimalLiteral :: "env \<Rightarrow> string \<Rightarrow> number" where
  "signedDecimalLiteral E t =
     (case splitSign t of (negative, u) \<Rightarrow>
        if u = ''Infinity'' then signedInf negative
        else (case strUnsignedDecimalLiteral u of
                None \<Rightarrow> NaN
              | Some q \<Rightarrow> fl E (if negative then - q else q)))"

text \<open>
  The empty string and a string of white space convert to 0; text that is no numeric
  literal converts to NaN.
\<close>

definition Number :: "env \<Rightarrow> string \<Rightarrow> number" where
  "Number E token =
     (let t = trimString token in
      if t = [] then Fin 0
      else (case nonDecimalIntegerLiteral t of
              Some n \<Rightarrow> fl E (of_nat n)
            | None \<Rightarrow> signedDecimalLiteral E t))"

section \<open>Error messages\<close>

text \<open>
  Modelled from the spec: \<^verbatim>\<open>ErrorMessages\<close> of \<^verbatim>\<open>./GlobalDefinitions\<close> is not among the
  sources; the six texts are the ones the specification names.
\<close>

definition emptyFormula :: string where "emptyFormula = ''empty formula''"
definition invalidFormula :: string where "invalidFormula = ''invalid formula''"
definition invalidCell :: string where "invalidCell = ''invalid cell''"
definition invalidOperator :: string where "invalidOperator = ''invalid operator''"
definition missingParentheses :: string where "missingParentheses = ''missing parentheses''"
definition divideByZero :: string where "divideByZero = ''divide by zero''"

lemmas ErrorMessages_defs =
  emptyFormula_def invalidFormula_def invalidCell_def invalidOperator_def
  missingParentheses_def divideByZero_def

section \<open>Cells, sheet memory and the evaluator object\<close>

text \<open>
  \<^verbatim>\<open>Cell\<close> and \<^verbatim>\<open>SheetMemory\<close> are collaborators outside the sources: a cell is what its
  three getters return, the memory is its two methods.
\<close>

record Cell =
  getFormula :: "string list"
  getValue :: number
  getError :: string

record SheetMemory =
  isValidCellLabel :: "string \<Rightarrow> bool"
  getCellByLabel :: "string \<Rightarrow> Cell"

text \<open>The fields of \<^verbatim>\<open>class FormulaEvaluator\<close>, without the leading underscore.\<close>

record FormulaEvaluator =
  errorOccured :: bool
  errorMessage :: string
  currentFormula :: "string list"
  lastResult :: number
  sheetMemory :: SheetMemory
  result :: number

text \<open>
  The accessor \<^verbatim>\<open>get result()\<close> is the selector \<open>result\<close>; \<^verbatim>\<open>get error()\<close> returns
  \<^verbatim>\<open>_errorMessage\<close>.
\<close>

abbreviation error :: "FormulaEvaluator \<Rightarrow> string" where
  "error \<equiv> errorMessage"

section \<open>Token classifiers and cell values\<close>

definition isNumber :: "env \<Rightarrow> string \<Rightarrow> bool" where
  "isNumber E token = (Number E token \<noteq> NaN)"

definition isCellReference :: "env \<Rightarrow> string \<Rightarrow> bool" where
  "isCellReference E token = cellIsValidCellLabel E token"

definition getCellValue :: "FormulaEvaluator \<Rightarrow> string \<Rightarrow> number \<times> string" where
  "getCellValue this token =
     (if \<not> isValidCellLabel (sheetMemory this) token then (Fin 0, invalidCell)
      else
        let cell = getCellByLabel (sheetMemory this) token;
            formula = getFormula cell;
            cellError = getError cell
        in if cellError \<noteq> [] \<and> cellError \<noteq> emptyFormula then (Fin 0, cellError)
           else if length formula = 0 then (Fin 0, invalidCell)
           else (getValue cell, []))"

section \<open>Operator precedence\<close>

text \<open>
  \<^verbatim>\<open>precedenceMap[op] || 0\<close> reads a property of an object literal: the four operators
  are its own keys; a member name of \<^verbatim>\<open>Object.prototype\<close> finds the inherited member, a
  function or an object, which is truthy and is returned as it is; any other text finds
  nothing and gives 0.
\<close>

datatype precedenceValue = Rank nat | Inherited string

definition objectPrototypeMembers :: "string list" where
  "objectPrototypeMembers =
     [''constructor'', ''hasOwnProperty'', ''isPrototypeOf'', ''propertyIsEnumerable'',
      ''toLocaleString'', ''toString'', ''valueOf'', ''__proto__'',
      ''__defineGetter__'', ''__defineSetter__'', ''__lookupGetter__'', ''__lookupSetter__'']"

definition precedence :: "string \<Rightarrow> precedenceValue" where
  "precedence op =
     (if op = ''+'' then Rank 1
      else if op = ''-'' then Rank 1
      else if op = ''*'' then Rank 2
      else if op = ''/'' then Rank 2
      else if op \<in> set objectPrototypeMembers then Inherited op
      else Rank 0)"

text \<open>
  \<^verbatim>\<open>p >= q\<close>. Two numbers compare as numbers. An inherited member converts to a text
  that is no number, so against a number the comparison is false. Two inherited members
  compare by their texts, which the engine prints: \<open>inheritedGE\<close>.
\<close>

definition precedenceGE :: "env \<Rightarrow> precedenceValue \<Rightarrow> precedenceValue \<Rightarrow> bool" where
  "precedenceGE E p q =
     (case (p, q) of
        (Rank m, Rank n) \<Rightarrow> n \<le> m
      | (Inherited x, Inherited y) \<Rightarrow> inheritedGE E x y
      | (_, _) \<Rightarrow> False)"

section \<open>The two stacks and \<^verbatim>\<open>compute\<close>\<close>

text \<open>
  The state a call of \<^verbatim>\<open>evaluate\<close> works on: the object and the two local arrays. An
  array is the list of its elements in index order: \<^verbatim>\<open>push\<close> appends, \<^verbatim>\<open>pop\<close> removes the
  last element (and does nothing to an empty array).

  A statement completes normally, by \<^verbatim>\<open>return\<close>, or by throwing an \<^verbatim>\<open>Error\<close> with a
  message; each completion carries the state reached, which is what the \<^verbatim>\<open>catch\<close> block
  and the caller see.
\<close>

record state =
  self :: FormulaEvaluator
  operandsStack :: "number list"
  operatorsStack :: "string list"

datatype completion = Normal state | Return state | Throw string state

definition setErrorMessage :: "string \<Rightarrow> state \<Rightarrow> state" where
  "setErrorMessage m s = s\<lparr>self := (self s)\<lparr>errorMessage := m\<rparr>\<rparr>"

definition setResult :: "number \<Rightarrow> state \<Rightarrow> state" where
  "setResult v s = s\<lparr>self := (self s)\<lparr>result := v\<rparr>\<rparr>"

definition pushOperand :: "number \<Rightarrow> state \<Rightarrow> state" where
  "pushOperand v s = s\<lparr>operandsStack := operandsStack s @ [v]\<rparr>"

definition compute :: "env \<Rightarrow> state \<Rightarrow> completion" where
  "compute E s =
     (let op = (if operatorsStack s = [] then None else Some (last (operatorsStack s)));
          s1 = s\<lparr>operatorsStack := butlast (operatorsStack s)\<rparr>
      in if length (operandsStack s1) < 2 then Throw invalidFormula s1
         else
           let b = orZero (last (operandsStack s1));
               s2 = s1\<lparr>operandsStack := butlast (operandsStack s1)\<rparr>;
               a = orZero (last (operandsStack s2));
               s3 = s2\<lparr>operandsStack := butlast (operandsStack s2)\<rparr>
           in if op = Some ''+'' then Normal (pushOperand (jsAdd E a b) s3)
              else if op = Some ''-'' then Normal (pushOperand (jsSub E a b) s3)
              else if op = Some ''*'' then Normal (pushOperand (jsMul E a b) s3)
              else if op = Some ''/'' then
                (if b = Fin 0
                 then Throw divideByZero (setResult PInf (setErrorMessage divideByZero s3))
                 else Normal (pushOperand (jsDiv E a b) s3))
              else Throw ''Invalid operator'' (setErrorMessage invalidOperator s3))"

text \<open>
  A call of \<open>compute\<close> that completes normally has popped one operator; the three
  \<^verbatim>\<open>while\<close> loops of \<^verbatim>\<open>evaluate\<close> end for that reason.
\<close>

lemma compute_Normal_operatorsStack:
  "compute E s = Normal s' \<Longrightarrow> operatorsStack s' = butlast (operatorsStack s)"
  by (auto simp: compute_def Let_def pushOperand_def split: if_splits)

section \<open>\<^verbatim>\<open>evaluate\<close>\<close>

text \<open>The loop of the close-parenthesis branch.\<close>

function closeParenLoop :: "env \<Rightarrow> state \<Rightarrow> completion" where
  "closeParenLoop E s =
     (if operatorsStack s \<noteq> [] \<and> last (operatorsStack s) \<noteq> ''(''
      then (case compute E s of Normal s' \<Rightarrow> closeParenLoop E s' | c \<Rightarrow> c)
      else Normal s)"
  by pat_completeness auto
termination
  by (relation "measure (\<lambda>(E, s). length (operatorsStack s))")
     (auto dest: compute_Normal_operatorsStack)

text \<open>The loop of the operator branch.\<close>

function operatorLoop :: "env \<Rightarrow> string \<Rightarrow> state \<Rightarrow> completion" where
  "operatorLoop E token s =
     (if operatorsStack s \<noteq> [] \<and>
         precedenceGE E (precedence (last (operatorsStack s))) (precedence token)
      then (case compute E s of Normal s' \<Rightarrow> operatorLoop E token s' | c \<Rightarrow> c)
      else Normal s)"
  by pat_completeness auto
termination
  by (relation "measure (\<lambda>(E, token, s). length (operatorsStack s))")
     (auto dest: compute_Normal_operatorsStack)

text \<open>The loop after the scan, which applies the operators that remain.\<close>

function drainLoop :: "env \<Rightarrow> state \<Rightarrow> completion" where
  "drainLoop E s =
     (if operatorsStack s \<noteq> []
      then (case compute E (if last (operatorsStack s) = ''(''
                            then setErrorMessage missingParentheses s else s) of
              Normal s' \<Rightarrow> drainLoop E s'
            | c \<Rightarrow> c)
      else Normal s)"
  by pat_completeness auto
termination
  by (relation "measure (\<lambda>(E, s). length (operatorsStack s))")
     (auto dest!: compute_Normal_operatorsStack simp: setErrorMessage_def split: if_splits)

declare closeParenLoop.simps [simp del] operatorLoop.simps [simp del] drainLoop.simps [simp del]

text \<open>The body of the \<^verbatim>\<open>for\<close> loop, for one token.\<close>

definition scanToken :: "env \<Rightarrow> string \<Rightarrow> state \<Rightarrow> completion" where
  "scanToken E token s =
     (if isNumber E token then Normal (pushOperand (Number E token) s)
      else if isCellReference E token then
        (case getCellValue (self s) token of (cellValue, cellError) \<Rightarrow>
           if cellError \<noteq> [] then Return (setErrorMessage cellError s)
           else Normal (pushOperand cellValue s))
      else if token = ''('' then Normal (s\<lparr>operatorsStack := operatorsStack s @ [token]\<rparr>)
      else if token = '')'' then
        (case closeParenLoop E s of
           Normal s' \<Rightarrow> Normal (s'\<lparr>operatorsStack := butlast (operatorsStack s')\<rparr>)
         | c \<Rightarrow> c)
      else
        (case operatorLoop E token s of
           Normal s' \<Rightarrow> Normal (s'\<lparr>operatorsStack := operatorsStack s' @ [token]\<rparr>)
         | c \<Rightarrow> c))"

text \<open>The \<^verbatim>\<open>for\<close> loop over the tokens that are left.\<close>

fun scanTokens :: "env \<Rightarrow> string list \<Rightarrow> state \<Rightarrow> completion" where
  "scanTokens E [] s = Normal s"
| "scanTokens E (token # rest) s =
     (case scanToken E token s of Normal s' \<Rightarrow> scanTokens E rest s' | c \<Rightarrow> c)"

text \<open>
  The \<^verbatim>\<open>try\<close> block: the scan, the drain, the check that one operand is left, and the
  assignment of \<^verbatim>\<open>operandsStack.pop() || 0\<close> to the result.
\<close>

definition tryBlock :: "env \<Rightarrow> string list \<Rightarrow> state \<Rightarrow> completion" where
  "tryBlock E formula s =
     (case scanTokens E formula s of
        Normal s1 \<Rightarrow>
          (case drainLoop E s1 of
             Normal s2 \<Rightarrow>
               if length (operandsStack s2) \<noteq> 1
               then Throw invalidFormula (setErrorMessage invalidFormula s2)
               else Normal (setResult (orZero (last (operandsStack s2)))
                              (s2\<lparr>operandsStack := butlast (operandsStack s2)\<rparr>))
           | c \<Rightarrow> c)
      | c \<Rightarrow> c)"

text \<open>The \<^verbatim>\<open>catch\<close> block, run on the state in which the error was thrown.\<close>

definition catchBlock :: "state \<Rightarrow> state" where
  "catchBlock s =
     (let s1 = (if errorMessage (self s) = [] then setErrorMessage invalidFormula s else s)
      in if length (operandsStack s1) = 1 then setResult (operandsStack s1 ! 0) s1 else s1)"

definition stateOf :: "completion \<Rightarrow> state" where
  "stateOf c = (case c of Normal s \<Rightarrow> s | Return s \<Rightarrow> s | Throw m s \<Rightarrow> s)"

text \<open>
  \<^verbatim>\<open>evaluate(formula)\<close> on the object \<open>this\<close>; the value is the object when the call
  returns. The first two assignments are \<open>reset\<close>; the \<^verbatim>\<open>try\<close> block starts from
  \<open>initialState\<close>, with both stacks new and empty.
\<close>

definition reset :: "FormulaEvaluator \<Rightarrow> FormulaEvaluator" where
  "reset this = this\<lparr>result := Fin 0, errorMessage := []\<rparr>"

definition initialState :: "FormulaEvaluator \<Rightarrow> state" where
  "initialState this = \<lparr>self = reset this, operandsStack = [], operatorsStack = []\<rparr>"

definition evaluate :: "env \<Rightarrow> string list \<Rightarrow> FormulaEvaluator \<Rightarrow> FormulaEvaluator" where
  "evaluate E formula this =
     (let this0 = reset this in
      if length formula = 0 then this0\<lparr>errorMessage := emptyFormula\<rparr>
      else if length formula = 1 then
        (if isNumber E (formula ! 0) then this0\<lparr>result := Number E (formula ! 0)\<rparr>
         else if isCellReference E (formula ! 0) then
           (case getCellValue this0 (formula ! 0) of (cellValue, cellError) \<Rightarrow>
              if cellError \<noteq> [] then this0\<lparr>errorMessage := cellError\<rparr>
              else this0\<lparr>result := cellValue\<rparr>)
         else this0\<lparr>errorMessage := invalidFormula\<rparr>)
      else
        (case tryBlock E formula (initialState this) of
           Normal s \<Rightarrow> self s
         | Return s \<Rightarrow> self s
         | Throw m s \<Rightarrow> self (catchBlock s)))"

text \<open>The constructor: the field initialisers, and the memory it is given.\<close>

definition newFormulaEvaluator :: "SheetMemory \<Rightarrow> FormulaEvaluator" where
  "newFormulaEvaluator memory =
     \<lparr>errorOccured = False, errorMessage = [], currentFormula = [], lastResult = Fin 0,
      sheetMemory = memory, result = Fin 0\<rparr>"

text \<open>
  The fields that no statement of the class assigns: two objects that agree on them are
  the same evaluator, up to the result and the error message.
\<close>

definition sameObject :: "FormulaEvaluator \<Rightarrow> FormulaEvaluator \<Rightarrow> bool" where
  "sameObject a b =
     (errorOccured a = errorOccured b \<and> currentFormula a = currentFormula b \<and>
      lastResult a = lastResult b \<and> sheetMemory a = sheetMemory b)"

section \<open>Numeric literals, in words\<close>

text \<open>
  The specification describes the text that \<open>isNumber\<close> accepts as a decimal literal
  with an optional sign and an optional fractional part. Written out from those words: a
  sign or none, one or more digits, and then nothing or a point and one or more digits.
\<close>

definition specDecimalLiteral :: "string \<Rightarrow> bool" where
  "specDecimalLiteral token =
     (case splitSign token of (negative, u) \<Rightarrow>
        let ip = takeWhile (isDigitOf 10) u; r = dropWhile (isDigitOf 10) u
        in ip \<noteq> [] \<and>
           (r = [] \<or> (hd r = CHR ''.'' \<and> tl r \<noteq> [] \<and> list_all (isDigitOf 10) (tl r))))"

text \<open>
  The literals of \<^verbatim>\<open>Number()\<close>, production by production of the grammar of ECMAScript
  (StringNumericLiteral), as the shapes a text can have; \<open>Number\<close> above computes,
  these describe. An exponent part is \<^verbatim>\<open>e\<close> or \<^verbatim>\<open>E\<close>, a sign or none, and digits. An
  unsigned decimal literal is \<^verbatim>\<open>Infinity\<close>, or digits, a point and perhaps digits, or a
  point and digits, or digits; the last three perhaps with an exponent part. A decimal
  literal is one of these after a sign or none. A literal that is not decimal is
  \<^verbatim>\<open>0x\<close>, \<^verbatim>\<open>0o\<close> or \<^verbatim>\<open>0b\<close> (in either case) and digits of that base.
\<close>

definition decimalDigits :: "string \<Rightarrow> bool" where
  "decimalDigits ds = (ds \<noteq> [] \<and> list_all (isDigitOf 10) ds)"

definition signText :: "string \<Rightarrow> bool" where
  "signText sg = (sg = [] \<or> sg = ''+'' \<or> sg = ''-'')"

definition exponentPartText :: "string \<Rightarrow> bool" where
  "exponentPartText ex =
     (\<exists>ind sg ds. ex = ind # sg @ ds \<and> (ind = CHR ''e'' \<or> ind = CHR ''E'') \<and>
                   signText sg \<and> decimalDigits ds)"

definition strUnsignedDecimalText :: "string \<Rightarrow> bool" where
  "strUnsignedDecimalText u =
     (u = ''Infinity'' \<or>
      (\<exists>ip fp ex. (ex = [] \<or> exponentPartText ex) \<and>
         (decimalDigits ip \<and> list_all (isDigitOf 10) fp \<and> u = ip @ ''.'' @ fp @ ex \<or>
          ip = [] \<and> decimalDigits fp \<and> u = ''.'' @ fp @ ex \<or>
          decimalDigits ip \<and> fp = [] \<and> u = ip @ ex)))"

definition strDecimalText :: "string \<Rightarrow> bool" where
  "strDecimalText t = (\<exists>sg u. t = sg @ u \<and> signText sg \<and> strUnsignedDecimalText u)"

definition nonDecimalIntegerText :: "string \<Rightarrow> bool" where
  "nonDecimalIntegerText t =
     (\<exists>x ds. t = CHR ''0'' # x # ds \<and> ds \<noteq> [] \<and>
        ((x = CHR ''x'' \<or> x = CHR ''X'') \<and> list_all (isDigitOf 16) ds \<or>
         (x = CHR ''o'' \<or> x = CHR ''O'') \<and> list_all (isDigitOf 8) ds \<or>
         (x = CHR ''b'' \<or> x = CHR ''B'') \<and> list_all (isDigitOf 2) ds))"

definition strNumericLiteralText :: "string \<Rightarrow> bool" where
  "strNumericLiteralText t = (strDecimalText t \<or> nonDecimalIntegerText t)"

section \<open>The value of an operator\<close>

text \<open>
  What \<open>compute\<close> pushes for an operator and the two operands it pops, each read through
  \<^verbatim>\<open>|| 0\<close>; and the condition under which the division does not throw.
\<close>

definition applyOperator :: "env \<Rightarrow> string \<Rightarrow> number \<Rightarrow> number \<Rightarrow> number" where
  "applyOperator E op a b =
     (if op = ''+'' then jsAdd E (orZero a) (orZero b)
      else if op = ''-'' then jsSub E (orZero a) (orZero b)
      else if op = ''*'' then jsMul E (orZero a) (orZero b)
      else jsDiv E (orZero a) (orZero b))"

definition nonZeroDivisor :: "string \<Rightarrow> number \<Rightarrow> bool" where
  "nonZeroDivisor op b = (op = ''/'' \<longrightarrow> orZero b \<noteq> Fin 0)"

section \<open>Formulas as expressions\<close>

text \<open>
  The formulas of arithmetic, as trees: an operand is a number token or an expression in
  parentheses, a product is operands joined by * and /, an expression is products joined
  by + and -, both grouped from the left. The tokens of a tree are its formula. Its
  value applies each operator to the values of its two sides, as \<open>applyOperator\<close> does,
  and is \<open>None\<close> when a division has a zero divisor.
\<close>

datatype addop = Plus | Minus
datatype mulop = Times | Divide

datatype operand = Literal string | Parens expression
  and product = Operand operand | MulDiv product mulop operand
  and expression = Product product | AddSub expression addop product

definition addopToken :: "addop \<Rightarrow> string" where
  "addopToken op = (case op of Plus \<Rightarrow> ''+'' | Minus \<Rightarrow> ''-'')"

definition mulopToken :: "mulop \<Rightarrow> string" where
  "mulopToken op = (case op of Times \<Rightarrow> ''*'' | Divide \<Rightarrow> ''/'')"

primrec operandTokens :: "operand \<Rightarrow> string list"
  and productTokens :: "product \<Rightarrow> string list"
  and expressionTokens :: "expression \<Rightarrow> string list" where
  "operandTokens (Literal a) = [a]"
| "operandTokens (Parens e) = ''('' # expressionTokens e @ ['')'']"
| "productTokens (Operand x) = operandTokens x"
| "productTokens (MulDiv p op x) = productTokens p @ mulopToken op # operandTokens x"
| "expressionTokens (Product p) = productTokens p"
| "expressionTokens (AddSub e op p) = expressionTokens e @ addopToken op # productTokens p"

primrec operandNumbers :: "env \<Rightarrow> operand \<Rightarrow> bool"
  and productNumbers :: "env \<Rightarrow> product \<Rightarrow> bool"
  and expressionNumbers :: "env \<Rightarrow> expression \<Rightarrow> bool" where
  "operandNumbers E (Literal a) = isNumber E a"
| "operandNumbers E (Parens e) = expressionNumbers E e"
| "productNumbers E (Operand x) = operandNumbers E x"
| "productNumbers E (MulDiv p op x) = (productNumbers E p \<and> operandNumbers E x)"
| "expressionNumbers E (Product p) = productNumbers E p"
| "expressionNumbers E (AddSub e op p) = (expressionNumbers E e \<and> productNumbers E p)"

primrec operandValue :: "env \<Rightarrow> operand \<Rightarrow> number option"
  and productValue :: "env \<Rightarrow> product \<Rightarrow> number option"
  and expressionValue :: "env \<Rightarrow> expression \<Rightarrow> number option" where
  "operandValue E (Literal a) = Some (Number E a)"
| "operandValue E (Parens e) = expressionValue E e"
| "productValue E (Operand x) = operandValue E x"
| "productValue E (MulDiv p op x) =
     (case productValue E p of
        None \<Rightarrow> None
      | Some a \<Rightarrow>
          (case operandValue E x of
             None \<Rightarrow> None
           | Some b \<Rightarrow>
               if nonZeroDivisor (mulopToken op) b
               then Some (applyOperator E (mulopToken op) a b) else None))"
| "expressionValue E (Product p) = productValue E p"
| "expressionValue E (AddSub e op p) =
     (case expressionValue E e of
        None \<Rightarrow> None
      | Some a \<Rightarrow>
          (case productValue E p of
             None \<Rightarrow> None
           | Some b \<Rightarrow> Some (applyOperator E (addopToken op) a b)))"

text \<open>The operators and the parentheses are no cell labels.\<close>

definition signsNotCells :: "env \<Rightarrow> bool" where
  "signsNotCells E =
     (\<forall>t \<in> set [''+'', ''-'', ''*'', ''/'', ''('', '')'']. \<not> isCellReference E t)"

text \<open>
  The stacks while an expression is scanned: above the state \<open>s0\<close> in which the scan of
  it began lie its value, or the operands of a multiplication or division not yet applied
  with the operator, and below those perhaps the left operand of an addition or
  subtraction not yet applied with its operator.
\<close>

definition pendingOperator :: "state \<Rightarrow> number \<Rightarrow> string \<Rightarrow> state" where
  "pendingOperator s a op =
     s\<lparr>operandsStack := operandsStack s @ [a], operatorsStack := operatorsStack s @ [op]\<rparr>"

definition productPending :: "env \<Rightarrow> state \<Rightarrow> number \<Rightarrow> state \<Rightarrow> bool" where
  "productPending E s0 v s1 =
     (s1 = pushOperand v s0 \<or>
      (\<exists>a b op. s1 = pushOperand b (pendingOperator s0 a (mulopToken op)) \<and>
                nonZeroDivisor (mulopToken op) b \<and>
                applyOperator E (mulopToken op) a b = v))"

definition expressionPending :: "env \<Rightarrow> state \<Rightarrow> number \<Rightarrow> state \<Rightarrow> bool" where
  "expressionPending E s0 v s1 =
     (productPending E s0 v s1 \<or>
      (\<exists>a b op. productPending E (pendingOperator s0 a (addopToken op)) b s1 \<and>
                applyOperator E (addopToken op) a b = v))"

definition lowTop :: "state \<Rightarrow> bool" where
  "lowTop s = (operatorsStack s = [] \<or> last (operatorsStack s) \<in> set [''('', ''+'', ''-''])"

definition baseTop :: "state \<Rightarrow> bool" where
  "baseTop s = (operatorsStack s = [] \<or> last (operatorsStack s) = ''('')"

section \<open>A sample sheet\<close>

text \<open>
  Modelled from the spec: \<^verbatim>\<open>Cell.isValidCellLabel\<close> is not among the sources; the
  specification gives the label grammar as one or more letters followed by one or more
  digits. The general theorems take the check as a parameter; this one serves the
  concrete examples.
\<close>

definition isLetter :: "char \<Rightarrow> bool" where
  "isLetter c =
     (let n = (of_char c :: nat) in (65 \<le> n \<and> n \<le> 90) \<or> (97 \<le> n \<and> n \<le> 122))"

definition letterDigitLabel :: "string \<Rightarrow> bool" where
  "letterDigitLabel label =
     (let letters = takeWhile isLetter label; digits = dropWhile isLetter label
      in letters \<noteq> [] \<and> digits \<noteq> [] \<and> list_all (isDigitOf 10) digits)"

text \<open>
  An engine whose rounding leaves every rational as it is (the examples compute with
  small integers, which doubles represent exactly), and a memory that knows three labels:
  A1 holds an error of its own and no formula, B2 is empty, C3 holds the formula 3.
\<close>

definition sampleEnv :: env where
  "sampleEnv = \<lparr>rnd = Some, cellIsValidCellLabel = letterDigitLabel,
                 inheritedGE = (\<lambda>x y. True)\<rparr>"

definition sampleCell :: "string \<Rightarrow> Cell" where
  "sampleCell label =
     (if label = ''A1'' then \<lparr>getFormula = [], getValue = Fin 0, getError = ''#REF!''\<rparr>
      else if label = ''C3'' then \<lparr>getFormula = [''3''], getValue = Fin 3, getError = []\<rparr>
      else \<lparr>getFormula = [], getValue = Fin 0, getError = emptyFormula\<rparr>)"

definition sampleMemory :: SheetMemory where
  "sampleMemory =
     \<lparr>isValidCellLabel = (\<lambda>label. label \<in> set [''A1'', ''B2'', ''C3'']),
      getCellByLabel = sampleCell\<rparr>"

text \<open>The formulas ( 1 + 2 ) * 3, 3 * 4 + 2 and 2 + 3 * 4 as trees.\<close>

definition formulaOne :: expression where
  "formulaOne =
     Product (MulDiv
       (Operand (Parens (AddSub (Product (Operand (Literal ''1''))) Plus
                                (Operand (Literal ''2'')))))
       Times (Literal ''3''))"

definition formulaTwo :: expression where
  "formulaTwo =
     AddSub (Product (MulDiv (Operand (Literal ''3'')) Times (Literal ''4''))) Plus
            (Operand (Literal ''2''))"

definition formulaThree :: expression where
  "formulaThree =
     AddSub (Product (Operand (Literal ''2''))) Plus
            (MulDiv (Operand (Literal ''3'')) Times (Literal ''4''))"

section \<open>What a call does to the object\<close>

text \<open>
  Facts that are followed through \<open>compute\<close>, the three loops, the scan and the \<^verbatim>\<open>try\<close>
  block: a normal completion of the scan leaves the object as it was; no completion
  touches a field other than the result and the message; and \<open>compute\<close> throws the
  divide-by-zero message with that message and an infinite result stored.
\<close>

lemma compute_Normal_self: "compute E s = Normal s' \<Longrightarrow> self s' = self s"
  by (auto simp: compute_def Let_def pushOperand_def split: if_splits)

lemma compute_not_Return: "compute E s \<noteq> Return s'"
  by (auto simp: compute_def Let_def split: if_splits)

lemma compute_Throw_divideByZero:
  "compute E s = Throw divideByZero s' \<Longrightarrow>
     errorMessage (self s') = divideByZero \<and> result (self s') = PInf"
  by (auto simp: compute_def Let_def setResult_def setErrorMessage_def ErrorMessages_defs
      split: if_splits)

lemma compute_sameObject: "sameObject (self s) (self (stateOf (compute E s)))"
  by (simp add: compute_def Let_def stateOf_def sameObject_def pushOperand_def setResult_def
      setErrorMessage_def)

lemma closeParenLoop_Normal_self: "closeParenLoop E s = Normal s' \<Longrightarrow> self s' = self s"
proof (induction E s rule: closeParenLoop.induct)
  case (1 E s)
  then show ?case
    by (subst (asm) (2) closeParenLoop.simps)
       (auto split: if_splits completion.splits dest: compute_Normal_self)
qed

lemma operatorLoop_Normal_self: "operatorLoop E token s = Normal s' \<Longrightarrow> self s' = self s"
proof (induction E token s rule: operatorLoop.induct)
  case (1 E token s)
  then show ?case
    by (subst (asm) (2) operatorLoop.simps)
       (auto split: if_splits completion.splits dest: compute_Normal_self)
qed


lemma sameObject_refl [simp]: "sameObject a a"
  by (simp add: sameObject_def)

lemma sameObject_trans: "sameObject a b \<Longrightarrow> sameObject b c \<Longrightarrow> sameObject a c"
  by (simp add: sameObject_def)

lemma sameObject_assign [simp]:
  "sameObject a (b\<lparr>errorMessage := m\<rparr>) = sameObject a b"
  "sameObject a (b\<lparr>result := v\<rparr>) = sameObject a b"
  by (simp_all add: sameObject_def)

lemma closeParenLoop_sameObject:
  "closeParenLoop E s = c \<Longrightarrow> sameObject (self s) (self (stateOf c))"
proof (induction E s arbitrary: c rule: closeParenLoop.induct)
  case (1 E s)
  show ?case
  proof (cases "operatorsStack s \<noteq> [] \<and> last (operatorsStack s) \<noteq> ''(''")
    case False
    with "1.prems" show ?thesis
      by (subst (asm) closeParenLoop.simps) (auto simp: stateOf_def)
  next
    case True
    show ?thesis
    proof (cases "compute E s")
      case (Normal x)
      from "1.prems" True Normal have c: "closeParenLoop E x = c"
        by (subst (asm) closeParenLoop.simps) simp
      from "1.IH" [OF True Normal c] compute_Normal_self [OF Normal] show ?thesis
        by simp
    next
      case (Return x)
      then show ?thesis by (simp add: compute_not_Return)
    next
      case (Throw m x)
      from "1.prems" True Throw have c: "c = Throw m x"
        by (subst (asm) closeParenLoop.simps) simp
      from compute_sameObject [of s E] Throw c show ?thesis
        by (simp add: stateOf_def)
    qed
  qed
qed

lemma operatorLoop_sameObject:
  "operatorLoop E token s = c \<Longrightarrow> sameObject (self s) (self (stateOf c))"
proof (induction E token s arbitrary: c rule: operatorLoop.induct)
  case (1 E token s)
  show ?case
  proof (cases "operatorsStack s \<noteq> [] \<and> precedenceGE E (precedence (last (operatorsStack s))) (precedence token)")
    case False
    with "1.prems" show ?thesis
      by (subst (asm) operatorLoop.simps) (auto simp: stateOf_def)
  next
    case True
    show ?thesis
    proof (cases "compute E s")
      case (Normal x)
      from "1.prems" True Normal have c: "operatorLoop E token x = c"
        by (subst (asm) operatorLoop.simps) simp
      from "1.IH" [OF True Normal c] compute_Normal_self [OF Normal] show ?thesis
        by simp
    next
      case (Return x)
      then show ?thesis by (simp add: compute_not_Return)
    next
      case (Throw m x)
      from "1.prems" True Throw have c: "c = Throw m x"
        by (subst (asm) operatorLoop.simps) simp
      from compute_sameObject [of s E] Throw c show ?thesis
        by (simp add: stateOf_def)
    qed
  qed
qed

lemma drainLoop_sameObject:
  "drainLoop E s = c \<Longrightarrow> sameObject (self s) (self (stateOf c))"
proof (induction E s arbitrary: c rule: drainLoop.induct)
  case (1 E s)
  define s0 where "s0 = (if last (operatorsStack s) = ''('' then setErrorMessage missingParentheses s else s)"
  have s0: "sameObject (self s) (self s0)"
    by (simp add: s0_def setErrorMessage_def)
  show ?case
  proof (cases "operatorsStack s = []")
    case True
    with "1.prems" show ?thesis
      by (subst (asm) drainLoop.simps) (auto simp: stateOf_def)
  next
    case False
    show ?thesis
    proof (cases "compute E s0")
      case (Normal x)
      from "1.prems" False Normal have c: "drainLoop E x = c"
        by (subst (asm) drainLoop.simps) (simp add: s0_def)
      from "1.IH" [OF False _ c] Normal have "sameObject (self x) (self (stateOf c))"
        by (simp add: s0_def)
      with compute_Normal_self [OF Normal] s0 show ?thesis
        by (auto intro: sameObject_trans)
    next
      case (Return x)
      then show ?thesis by (simp add: compute_not_Return)
    next
      case (Throw m x)
      from "1.prems" False Throw have c: "c = Throw m x"
        by (subst (asm) drainLoop.simps) (simp add: s0_def)
      from compute_sameObject [of s0 E] Throw have "sameObject (self s0) (self x)"
        by (simp add: stateOf_def)
      with s0 c show ?thesis
        by (auto simp: stateOf_def intro: sameObject_trans)
    qed
  qed
qed

lemma scanToken_Normal_self: "scanToken E token s = Normal s' \<Longrightarrow> self s' = self s"
  by (auto simp: scanToken_def pushOperand_def
      split: if_splits prod.splits completion.splits
      dest: closeParenLoop_Normal_self operatorLoop_Normal_self)

lemma scanToken_sameObject:
  "scanToken E token s = c \<Longrightarrow> sameObject (self s) (self (stateOf c))"
  by (auto simp: scanToken_def pushOperand_def setErrorMessage_def stateOf_def
      split: if_splits prod.splits completion.splits
      dest: closeParenLoop_sameObject operatorLoop_sameObject)

lemma scanTokens_Normal_self: "scanTokens E tokens s = Normal s' \<Longrightarrow> self s' = self s"
  by (induction tokens arbitrary: s)
     (auto split: completion.splits dest: scanToken_Normal_self)

lemma scanTokens_sameObject:
  "scanTokens E tokens s = c \<Longrightarrow> sameObject (self s) (self (stateOf c))"
proof (induction tokens arbitrary: s)
  case Nil
  then show ?case by (auto simp: stateOf_def)
next
  case (Cons token rest)
  show ?case
  proof (cases "scanToken E token s")
    case (Normal x)
    with Cons.prems have "scanTokens E rest x = c" by simp
    from Cons.IH [OF this] scanToken_Normal_self [OF Normal] show ?thesis by simp
  next
    case (Return x)
    with Cons.prems scanToken_sameObject [OF Return] show ?thesis by auto
  next
    case (Throw m x)
    with Cons.prems scanToken_sameObject [OF Throw] show ?thesis by auto
  qed
qed

lemma scanTokens_append:
  "scanTokens E (xs @ ys) s =
     (case scanTokens E xs s of Normal s' \<Rightarrow> scanTokens E ys s' | c \<Rightarrow> c)"
  by (induction xs arbitrary: s) (auto split: completion.splits)

lemma tryBlock_sameObject:
  "tryBlock E formula s = c \<Longrightarrow> sameObject (self s) (self (stateOf c))"
proof (cases "scanTokens E formula s")
  case (Normal s1)
  assume c: "tryBlock E formula s = c"
  from scanTokens_Normal_self [OF Normal] have s1: "self s1 = self s" .
  from drainLoop_sameObject [of E s1 "drainLoop E s1"] s1
  have "sameObject (self s) (self (stateOf (drainLoop E s1)))" by simp
  with c Normal show ?thesis
    by (auto simp: tryBlock_def stateOf_def setErrorMessage_def setResult_def
        split: completion.splits if_splits)
next
  case (Return x)
  assume "tryBlock E formula s = c"
  with Return scanTokens_sameObject [OF Return] show ?thesis
    by (auto simp: tryBlock_def)
next
  case (Throw m x)
  assume "tryBlock E formula s = c"
  with Throw scanTokens_sameObject [OF Throw] show ?thesis
    by (auto simp: tryBlock_def)
qed

text \<open>
  An error thrown in the \<^verbatim>\<open>try\<close> block is thrown by a call of \<open>compute\<close>, or by the final
  check on the number of operands.
\<close>

lemma closeParenLoop_Throw_compute:
  "closeParenLoop E s = Throw m s' \<Longrightarrow> \<exists>s1. compute E s1 = Throw m s'"
proof (induction E s rule: closeParenLoop.induct)
  case (1 E s)
  from "1.prems" have cond: "operatorsStack s \<noteq> [] \<and> last (operatorsStack s) \<noteq> ''(''"
    by (subst (asm) closeParenLoop.simps) (auto split: if_splits)
  show ?case
  proof (cases "compute E s")
    case (Normal x)
    from "1.prems" cond Normal have "closeParenLoop E x = Throw m s'"
      by (subst (asm) closeParenLoop.simps) simp
    with "1.IH" [OF cond Normal] show ?thesis
      by simp
  next
    case (Return x)
    then show ?thesis by (simp add: compute_not_Return)
  next
    case (Throw m' x)
    from "1.prems" cond Throw have "compute E s = Throw m s'"
      by (subst (asm) closeParenLoop.simps) simp
    then show ?thesis ..
  qed
qed

lemma operatorLoop_Throw_compute:
  "operatorLoop E token s = Throw m s' \<Longrightarrow> \<exists>s1. compute E s1 = Throw m s'"
proof (induction E token s rule: operatorLoop.induct)
  case (1 E token s)
  from "1.prems" have cond: "operatorsStack s \<noteq> [] \<and>
      precedenceGE E (precedence (last (operatorsStack s))) (precedence token)"
    by (subst (asm) operatorLoop.simps) (auto split: if_splits)
  show ?case
  proof (cases "compute E s")
    case (Normal x)
    from "1.prems" cond Normal have "operatorLoop E token x = Throw m s'"
      by (subst (asm) operatorLoop.simps) simp
    with "1.IH" [OF cond Normal] show ?thesis
      by simp
  next
    case (Return x)
    then show ?thesis by (simp add: compute_not_Return)
  next
    case (Throw m' x)
    from "1.prems" cond Throw have "compute E s = Throw m s'"
      by (subst (asm) operatorLoop.simps) simp
    then show ?thesis ..
  qed
qed

lemma drainLoop_Throw_compute:
  "drainLoop E s = Throw m s' \<Longrightarrow> \<exists>s1. compute E s1 = Throw m s'"
proof (induction E s rule: drainLoop.induct)
  case (1 E s)
  define s0 where
    "s0 = (if last (operatorsStack s) = ''('' then setErrorMessage missingParentheses s else s)"
  from "1.prems" have cond: "operatorsStack s \<noteq> []"
    by (subst (asm) drainLoop.simps) (auto split: if_splits)
  show ?case
  proof (cases "compute E s0")
    case (Normal x)
    from "1.prems" cond Normal have "drainLoop E x = Throw m s'"
      by (subst (asm) drainLoop.simps) (simp add: s0_def)
    with "1.IH" [OF cond] Normal show ?thesis
      by (simp add: s0_def)
  next
    case (Return x)
    then show ?thesis by (simp add: compute_not_Return)
  next
    case (Throw m' x)
    from "1.prems" cond Throw have "compute E s0 = Throw m s'"
      by (subst (asm) drainLoop.simps) (simp add: s0_def)
    then show ?thesis ..
  qed
qed

lemma scanToken_Throw_compute:
  "scanToken E token s = Throw m s' \<Longrightarrow> \<exists>s1. compute E s1 = Throw m s'"
  by (auto simp: scanToken_def
      split: if_splits prod.splits completion.splits
      dest: closeParenLoop_Throw_compute operatorLoop_Throw_compute)

lemma scanTokens_Throw_compute:
  "scanTokens E tokens s = Throw m s' \<Longrightarrow> \<exists>s1. compute E s1 = Throw m s'"
  by (induction tokens arbitrary: s)
     (auto split: completion.splits dest: scanToken_Throw_compute)

lemma tryBlock_Throw_cases:
  assumes "tryBlock E formula s = Throw m s'"
  shows "(\<exists>s1. compute E s1 = Throw m s') \<or>
         (m = invalidFormula \<and> errorMessage (self s') = invalidFormula \<and>
          length (operandsStack s') \<noteq> 1)"
proof (cases "scanTokens E formula s")
  case (Normal s1)
  show ?thesis
  proof (cases "drainLoop E s1")
    case (Normal s2)
    with assms \<open>scanTokens E formula s = Normal s1\<close> show ?thesis
      by (auto simp: tryBlock_def setErrorMessage_def split: if_splits)
  next
    case (Return x)
    with assms \<open>scanTokens E formula s = Normal s1\<close> show ?thesis
      by (simp add: tryBlock_def)
  next
    case (Throw m' x)
    with assms \<open>scanTokens E formula s = Normal s1\<close> have "drainLoop E s1 = Throw m s'"
      by (simp add: tryBlock_def)
    then show ?thesis
      by (auto dest: drainLoop_Throw_compute)
  qed
next
  case (Return x)
  with assms show ?thesis by (simp add: tryBlock_def)
next
  case (Throw m' x)
  with assms have "scanTokens E formula s = Throw m s'"
    by (simp add: tryBlock_def)
  then show ?thesis
    by (auto dest: scanTokens_Throw_compute)
qed


lemma tryBlock_Throw_divideByZero:
  assumes "tryBlock E formula s = Throw divideByZero s'"
  shows "errorMessage (self s') = divideByZero \<and> result (self s') = PInf"
proof -
  have "divideByZero \<noteq> invalidFormula"
    by (simp add: ErrorMessages_defs)
  with tryBlock_Throw_cases [OF assms] obtain s1 where "compute E s1 = Throw divideByZero s'"
    by auto
  then show ?thesis
    by (rule compute_Throw_divideByZero)
qed

lemma catchBlock_sameObject: "sameObject (self s) (self (catchBlock s))"
  by (simp add: catchBlock_def Let_def setErrorMessage_def setResult_def)

lemma evaluate_sameObject: "sameObject this (evaluate E formula this)"
proof -
  have r: "sameObject this (reset this)"
    by (simp add: reset_def)
  have t: "sameObject this (self (stateOf (tryBlock E formula (initialState this))))"
    using tryBlock_sameObject [of E formula "initialState this"] r
    by (auto simp: initialState_def intro: sameObject_trans)
  have k: "tryBlock E formula (initialState this) = Throw m s \<Longrightarrow>
           sameObject this (self (catchBlock s))" for m s
    using t catchBlock_sameObject [of s] by (auto simp: stateOf_def intro: sameObject_trans)
  show ?thesis
    using r t k
    by (auto simp: evaluate_def Let_def stateOf_def split: completion.splits prod.splits)
qed

section \<open>Evaluating the model on concrete formulas\<close>

text \<open>
  The unfolding rules with which the simplifier runs \<open>evaluate\<close> on a formula that is
  written out.
\<close>

lemmas number_simps =
  signedInf_def fl_def isNeg_def neg_def jsAdd_def jsSub_def jsMul_def jsDiv_def orZero_def

lemmas Number_simps =
  Number_def signedDecimalLiteral_def trimString_def isStrWhiteSpaceChar_def
  nonDecimalIntegerLiteral_def radixOf_def splitSign_def strUnsignedDecimalLiteral_def
  isDigitOf_def digitValue_def exponentPart_def digitsValue_def scale10_def

lemmas evaluate_simps =
  isNumber_def isCellReference_def getCellValue_def precedence_def objectPrototypeMembers_def
  precedenceGE_def setErrorMessage_def setResult_def pushOperand_def compute_def
  closeParenLoop.simps operatorLoop.simps drainLoop.simps scanToken_def tryBlock_def
  catchBlock_def reset_def initialState_def evaluate_def ErrorMessages_defs Let_def

lemmas machine_simps =
  isCellReference_def precedence_def objectPrototypeMembers_def
  precedenceGE_def setErrorMessage_def setResult_def pushOperand_def compute_def
  closeParenLoop.simps operatorLoop.simps drainLoop.simps scanToken_def tryBlock_def
  catchBlock_def reset_def initialState_def evaluate_def ErrorMessages_defs Let_def

lemmas sample_simps =
  sampleEnv_def sampleMemory_def sampleCell_def letterDigitLabel_def isLetter_def
  newFormulaEvaluator_def

text \<open>A formula of two or more tokens is evaluated by the \<^verbatim>\<open>try\<close> statement.\<close>

lemma evaluate_multi_token:
  "1 < length formula \<Longrightarrow>
   evaluate E formula this =
     (case tryBlock E formula (initialState this) of
        Normal s \<Rightarrow> self s
      | Return s \<Rightarrow> self s
      | Throw m s \<Rightarrow> self (catchBlock s))"
  by (auto simp: evaluate_def Let_def)

section \<open>Division by zero\<close>

text \<open>
  \<open>compute\<close> throws an error with the divide-by-zero message in one place only: the
  operator popped is the division and the operand on top, read through \<^verbatim>\<open>|| 0\<close>, is
  zero. So "the evaluation reaches a division whose divisor is zero" is "the \<^verbatim>\<open>try\<close>
  block throws that message".
\<close>

lemma compute_Throw_divideByZero_iff:
  "(\<exists>s'. compute E s = Throw divideByZero s') \<longleftrightarrow>
     operatorsStack s \<noteq> [] \<and> last (operatorsStack s) = ''/'' \<and>
     2 \<le> length (operandsStack s) \<and> orZero (last (operandsStack s)) = Fin 0"
  by (auto simp: compute_def Let_def ErrorMessages_defs)

lemma tryBlock_Throw_divideByZero_division:
  assumes "tryBlock E formula s = Throw divideByZero s'"
  shows "\<exists>s1. operatorsStack s1 \<noteq> [] \<and> last (operatorsStack s1) = ''/'' \<and>
              2 \<le> length (operandsStack s1) \<and> orZero (last (operandsStack s1)) = Fin 0 \<and>
              compute E s1 = Throw divideByZero s'"
proof -
  have "divideByZero \<noteq> invalidFormula"
    by (simp add: ErrorMessages_defs)
  with tryBlock_Throw_cases [OF assms] obtain s1 where s1: "compute E s1 = Throw divideByZero s'"
    by auto
  then have "\<exists>s'. compute E s1 = Throw divideByZero s'" ..
  then have "operatorsStack s1 \<noteq> [] \<and> last (operatorsStack s1) = ''/'' \<and>
             2 \<le> length (operandsStack s1) \<and> orZero (last (operandsStack s1)) = Fin 0"
    by (rule compute_Throw_divideByZero_iff [THEN iffD1])
  with s1 show ?thesis
    by blast
qed

text \<open>
  What follows the throw. The error accessor is "divide by zero". The \<^verbatim>\<open>catch\<close> block
  then looks at the operand stack: when exactly one value is left on it, that value is
  stored over the infinity that \<open>compute\<close> stored.
\<close>

lemma divide_by_zero_outcome:
  assumes "1 < length formula"
    and "tryBlock E formula (initialState this) = Throw divideByZero s"
  shows "error (evaluate E formula this) = divideByZero \<and>
         result (evaluate E formula this) =
           (if length (operandsStack s) = 1 then operandsStack s ! 0 else PInf)"
proof -
  from tryBlock_Throw_divideByZero [OF assms(2)]
  have "errorMessage (self s) = divideByZero" and "result (self s) = PInf"
    by simp_all
  with assms show ?thesis
    by (simp add: evaluate_multi_token catchBlock_def Let_def setResult_def ErrorMessages_defs)
qed

text \<open>
  Where no operand or more than one is left, the infinity stays: 5 / 0, 0 / 0 and
  ( 1 + 2 ) * ( 3 + 5 / 0 ).
\<close>

lemma divide_by_zero_infinity_examples:
  "error (evaluate sampleEnv [''5'', ''/'', ''0''] this) = divideByZero"
  "result (evaluate sampleEnv [''5'', ''/'', ''0''] this) = PInf"
  "error (evaluate sampleEnv [''0'', ''/'', ''0''] this) = divideByZero"
  "result (evaluate sampleEnv [''0'', ''/'', ''0''] this) = PInf"
  "error (evaluate sampleEnv
     [''('', ''1'', ''+'', ''2'', '')'', ''*'', ''('', ''3'', ''+'', ''5'', ''/'', ''0'', '')''] this)
     = divideByZero"
  "result (evaluate sampleEnv
     [''('', ''1'', ''+'', ''2'', '')'', ''*'', ''('', ''3'', ''+'', ''5'', ''/'', ''0'', '')''] this)
     = PInf"
  by (simp_all add: number_simps Number_simps evaluate_simps sample_simps)

text \<open>
  Claim C1 on the formula 1 + 5 / 0. The division is applied in the drain with 1 below
  its two operands; \<open>compute\<close> stores "divide by zero" and the infinity and throws with
  [1] on the operand stack; the \<^verbatim>\<open>catch\<close> block stores 1 over the infinity. The error
  accessor is "divide by zero" and the result accessor is 1, not positive infinity.
\<close>

theorem evaluate_divide_by_zero_salvaged:
  "tryBlock sampleEnv [''1'', ''+'', ''5'', ''/'', ''0''] (initialState this) =
     Throw divideByZero
       \<lparr>self = (reset this)\<lparr>errorMessage := divideByZero, result := PInf\<rparr>,
        operandsStack = [Fin 1], operatorsStack = [''+'']\<rparr> \<and>
   error (evaluate sampleEnv [''1'', ''+'', ''5'', ''/'', ''0''] this) = divideByZero \<and>
   result (evaluate sampleEnv [''1'', ''+'', ''5'', ''/'', ''0''] this) = Fin 1 \<and>
   result (evaluate sampleEnv [''1'', ''+'', ''5'', ''/'', ''0''] this) \<noteq> PInf"
  by (simp add: number_simps Number_simps evaluate_simps sample_simps)

section \<open>The \<^verbatim>\<open>catch\<close> block keeps a single operand\<close>

text \<open>
  Claim C3. A formula of two or more tokens whose \<^verbatim>\<open>try\<close> block throws (in the scan, in
  \<open>compute\<close> or at the final check) while the operand stack holds exactly one value \<open>v\<close>:
  after \<open>evaluate\<close> returns the result accessor is \<open>v\<close> and the error accessor is not
  empty; it is the message set before the throw, or "invalid formula" when none was.
  The theorem does not need the exclusion of the division by zero.
\<close>

theorem evaluate_salvage:
  assumes "1 < length formula"
    and "tryBlock E formula (initialState this) = Throw m s"
    and "operandsStack s = [v]"
  shows "result (evaluate E formula this) = v \<and>
         error (evaluate E formula this) \<noteq> [] \<and>
         error (evaluate E formula this) =
           (if errorMessage (self s) = [] then invalidFormula else errorMessage (self s))"
  using assms
  by (simp add: evaluate_multi_token catchBlock_def Let_def setResult_def setErrorMessage_def
      ErrorMessages_defs)

text \<open>
  The formula 1 +: \<open>compute\<close> finds one operand and throws with no message set; the
  result is 1 and the error is "invalid formula".
\<close>

theorem evaluate_salvage_witness:
  "1 < length [''1'', ''+''] \<and>
   tryBlock sampleEnv [''1'', ''+''] (initialState (newFormulaEvaluator sampleMemory)) =
     Throw invalidFormula
       \<lparr>self = newFormulaEvaluator sampleMemory, operandsStack = [Fin 1], operatorsStack = []\<rparr> \<and>
   result (evaluate sampleEnv [''1'', ''+''] (newFormulaEvaluator sampleMemory)) = Fin 1 \<and>
   error (evaluate sampleEnv [''1'', ''+''] (newFormulaEvaluator sampleMemory)) = invalidFormula"
proof -
  have thrown:
    "tryBlock sampleEnv [''1'', ''+''] (initialState (newFormulaEvaluator sampleMemory)) =
       Throw invalidFormula
         \<lparr>self = newFormulaEvaluator sampleMemory, operandsStack = [Fin 1],
          operatorsStack = []\<rparr>"
    by (simp add: number_simps Number_simps evaluate_simps sample_simps)
  from evaluate_salvage [OF _ thrown, of "Fin 1"] thrown show ?thesis
    by (simp add: newFormulaEvaluator_def)
qed

section \<open>Parentheses without a partner\<close>

text \<open>
  When the drain finds an open parenthesis on top of the operator stack it stores
  "missing parentheses" and calls \<open>compute\<close>, which throws: before its \<^verbatim>\<open>switch\<close> when
  fewer than two operands are left, and the message stays; from the default branch of
  the \<^verbatim>\<open>switch\<close> otherwise, which stores "invalid operator" over it.
\<close>

lemma drainLoop_open_paren:
  assumes "operatorsStack s \<noteq> []" and "last (operatorsStack s) = ''(''"
  shows "\<exists>m s'. drainLoop E s = Throw m s' \<and>
           errorMessage (self s') =
             (if length (operandsStack s) < 2 then missingParentheses else invalidOperator)"
  using assms
  by (subst drainLoop.simps)
     (simp add: compute_def Let_def setErrorMessage_def)

text \<open>
  Claim C2 on the formula 1 + ( 2 + 3. The drain applies the inner addition and finds the
  open parenthesis on top with two operands on the stack (1 and 5). The error accessor is
  "invalid operator", not "missing parentheses". The call returns: \<open>evaluate\<close> is a total
  function, its loops end because each normal \<open>compute\<close> pops an operator.
\<close>

theorem evaluate_unmatched_open_paren_overwritten:
  "error (evaluate sampleEnv [''1'', ''+'', ''('', ''2'', ''+'', ''3''] this) = invalidOperator \<and>
   error (evaluate sampleEnv [''1'', ''+'', ''('', ''2'', ''+'', ''3''] this) \<noteq> missingParentheses \<and>
   result (evaluate sampleEnv [''1'', ''+'', ''('', ''2'', ''+'', ''3''] this) = Fin 0"
  by (simp add: number_simps Number_simps evaluate_simps sample_simps)

text \<open>
  The formula of the claim, ( 1 + 2, leaves one operand when the parenthesis is reached:
  \<open>compute\<close> throws before its \<^verbatim>\<open>switch\<close> and the message stays.
\<close>

lemma evaluate_unmatched_open_paren_example:
  "error (evaluate sampleEnv [''('', ''1'', ''+'', ''2''] this) = missingParentheses \<and>
   result (evaluate sampleEnv [''('', ''1'', ''+'', ''2''] this) = Fin 3"
  by (simp add: number_simps Number_simps evaluate_simps sample_simps)

text \<open>
  Claim C4 on the formula 1 ): the loop of the close-parenthesis branch does not run, the
  \<^verbatim>\<open>pop\<close> that should remove the open parenthesis does nothing to the empty stack, the
  drain has nothing to apply and one operand is left. The result is 1 and the error
  accessor is the empty string.
\<close>

theorem evaluate_unmatched_close_paren_silent:
  "error (evaluate sampleEnv [''1'', '')''] this) = [] \<and>
   result (evaluate sampleEnv [''1'', '')''] this) = Fin 1"
  by (simp add: number_simps Number_simps evaluate_simps sample_simps)

section \<open>\<^verbatim>\<open>isNumber\<close>\<close>

lemma isDigitOf_10_iff: "isDigitOf 10 c \<longleftrightarrow> 48 \<le> (of_char c :: nat) \<and> (of_char c :: nat) \<le> 57"
  by (auto simp: isDigitOf_def digitValue_def Let_def)

lemma digit_not_white: "isDigitOf 10 c \<Longrightarrow> \<not> isStrWhiteSpaceChar c"
  by (auto simp: isDigitOf_10_iff isStrWhiteSpaceChar_def)

lemma fl_not_NaN: "fl E q \<noteq> NaN"
  by (simp add: fl_def signedInf_def split: option.splits)

lemma signedInf_not_NaN: "signedInf b \<noteq> NaN"
  by (simp add: signedInf_def)

lemma trimString_id:
  "s \<noteq> [] \<Longrightarrow> \<not> isStrWhiteSpaceChar (hd s) \<Longrightarrow> \<not> isStrWhiteSpaceChar (last s) \<Longrightarrow>
   trimString s = s"
proof -
  assume "\<not> isStrWhiteSpaceChar (hd s)" and "\<not> isStrWhiteSpaceChar (last s)"
  then have "dropWhile isStrWhiteSpaceChar s = s"
    and "dropWhile isStrWhiteSpaceChar (rev s) = rev s"
    by (simp_all only: dropWhile_eq_self_iff hd_rev simp_thms)
  then show ?thesis
    by (simp add: trimString_def)
qed

lemma split_digits:
  assumes "takeWhile (isDigitOf 10) u \<noteq> []"
    and "dropWhile (isDigitOf 10) u = [] \<or>
         (hd (dropWhile (isDigitOf 10) u) = CHR ''.'' \<and> tl (dropWhile (isDigitOf 10) u) \<noteq> [] \<and>
          list_all (isDigitOf 10) (tl (dropWhile (isDigitOf 10) u)))"
  shows "u \<noteq> []" and "isDigitOf 10 (hd u)" and "isDigitOf 10 (last u)"
    and "strUnsignedDecimalLiteral u \<noteq> None"
proof -
  let ?ip = "takeWhile (isDigitOf 10) u" and ?r = "dropWhile (isDigitOf 10) u"
  have u: "u = ?ip @ ?r" by simp
  from assms(1) show ne: "u \<noteq> []" by auto
  from assms(1) show "isDigitOf 10 (hd u)"
    by (auto simp: takeWhile_eq_Nil_iff)
  have ip: "\<forall>c \<in> set ?ip. isDigitOf 10 c"
    by (auto dest: set_takeWhileD)
  from assms(2) show "isDigitOf 10 (last u)"
  proof
    assume "?r = []"
    then have "\<forall>c \<in> set u. isDigitOf 10 c" by simp
    with ne show ?thesis by simp
  next
    assume r: "hd ?r = CHR ''.'' \<and> tl ?r \<noteq> [] \<and> list_all (isDigitOf 10) (tl ?r)"
    then have "?r \<noteq> []" by (metis list.sel(2))
    then have "?r = hd ?r # tl ?r" by simp
    with u r have "last u = last (tl ?r)"
      by (metis last_appendR last_ConsR list.distinct(1))
    with r show ?thesis
      by (metis last_in_set list_all_iff)
  qed
  from assms(2) show "strUnsignedDecimalLiteral u \<noteq> None"
  proof
    assume r: "?r = []"
    show ?thesis
      by (simp add: strUnsignedDecimalLiteral_def Let_def exponentPart_def r assms(1))
  next
    assume r: "hd ?r = CHR ''.'' \<and> tl ?r \<noteq> [] \<and> list_all (isDigitOf 10) (tl ?r)"
    then have "?r \<noteq> []" by (metis list.sel(2))
    then obtain fp where fp: "?r = CHR ''.'' # fp" "fp \<noteq> []" "list_all (isDigitOf 10) fp"
      using r by (cases ?r) auto
    then have fp': "takeWhile (isDigitOf 10) fp = fp" "dropWhile (isDigitOf 10) fp = []"
      by (simp_all add: list_all_iff)
    show ?thesis
      by (simp add: strUnsignedDecimalLiteral_def Let_def exponentPart_def fp(1,2) fp' assms(1))
  qed
qed

lemma specDecimalLiteral_isNumber:
  assumes "specDecimalLiteral token"
  shows "isNumber E token"
proof -
  obtain negative u where su: "splitSign token = (negative, u)"
    by (cases "splitSign token") auto
  with assms have ip: "takeWhile (isDigitOf 10) u \<noteq> []"
    and r: "dropWhile (isDigitOf 10) u = [] \<or>
         (hd (dropWhile (isDigitOf 10) u) = CHR ''.'' \<and> tl (dropWhile (isDigitOf 10) u) \<noteq> [] \<and>
          list_all (isDigitOf 10) (tl (dropWhile (isDigitOf 10) u)))"
    by (simp_all add: specDecimalLiteral_def Let_def)
  note d = split_digits [OF ip r]
  from su d(1) have shape: "token = u \<or> token = CHR ''-'' # u \<or> token = CHR ''+'' # u"
    by (auto simp: splitSign_def split: list.splits if_splits)
  with d(1) have ne: "token \<noteq> []" and last: "last token = last u"
    by auto
  from shape d(1,2) have "\<not> isStrWhiteSpaceChar (hd token)"
    by (auto simp: isStrWhiteSpaceChar_def dest: digit_not_white)
  with ne last d(3) have trim: "trimString token = token"
    by (simp add: trimString_id digit_not_white)
  from d(4) obtain q where q: "strUnsignedDecimalLiteral u = Some q"
    by auto
  with su have "signedDecimalLiteral E token \<noteq> NaN"
    by (simp add: signedDecimalLiteral_def fl_not_NaN signedInf_not_NaN)
  with trim ne show ?thesis
    by (simp add: isNumber_def Number_def Let_def fl_not_NaN split: option.splits)
qed

text \<open>
  \<open>Number\<close> gives a number exactly on the literals described above: for the exponent
  part, the unsigned and the signed decimal literal, the literal that is not decimal, and
  then for the whole text with the white space around it.
\<close>

lemma digit_facts:
  "\<not> isDigitOf 10 CHR ''.''" "\<not> isDigitOf 10 CHR ''e''" "\<not> isDigitOf 10 CHR ''E''"
  "\<not> isDigitOf 10 CHR ''+''" "\<not> isDigitOf 10 CHR ''-''" "\<not> isDigitOf 10 CHR ''I''"
  by (simp_all add: isDigitOf_10_iff)

lemma digits_then:
  assumes "list_all P xs" and "ys = [] \<or> \<not> P (hd ys)"
  shows "takeWhile P (xs @ ys) = xs" and "dropWhile P (xs @ ys) = ys"
proof -
  from assms(1) have all: "\<And>x. x \<in> set xs \<Longrightarrow> P x"
    by (simp add: list_all_iff)
  from assms(2) have "takeWhile P ys = []" and "dropWhile P ys = ys"
    by (simp_all only: takeWhile_eq_Nil_iff dropWhile_eq_self_iff)
  with all show "takeWhile P (xs @ ys) = xs" and "dropWhile P (xs @ ys) = ys"
    by simp_all
qed

lemma splitSign_sign:
  assumes "signText sg" and "u \<noteq> []" and "hd u \<noteq> CHR ''+''" and "hd u \<noteq> CHR ''-''"
  shows "splitSign (sg @ u) = (sg = ''-'', u)"
  using assms by (cases u) (auto simp: signText_def splitSign_def)

lemma splitSign_cases:
  assumes "splitSign t = (negative, u)"
  shows "\<exists>sg. signText sg \<and> t = sg @ u"
proof (cases t)
  case Nil
  with assms show ?thesis by (auto simp: splitSign_def signText_def)
next
  case (Cons c r)
  with assms have "u = r \<and> (c = CHR ''-'' \<or> c = CHR ''+'') \<or> u = t"
    by (auto simp: splitSign_def split: if_splits)
  then show ?thesis
  proof
    assume "u = r \<and> (c = CHR ''-'' \<or> c = CHR ''+'')"
    with Cons have "t = [c] @ u" and "signText [c]"
      by (auto simp: signText_def)
    then show ?thesis by blast
  next
    assume "u = t"
    then have "t = [] @ u" and "signText []"
      by (simp_all add: signText_def)
    then show ?thesis by blast
  qed
qed

lemma exponentPart_iff:
  "exponentPart ex \<noteq> None \<longleftrightarrow> ex = [] \<or> exponentPartText ex"
proof
  assume ok: "exponentPart ex \<noteq> None"
  show "ex = [] \<or> exponentPartText ex"
  proof (cases ex)
    case Nil
    then show ?thesis by simp
  next
    case (Cons ind r)
    obtain negative ds where sp: "splitSign r = (negative, ds)"
      by (cases "splitSign r") auto
    with ok Cons have ind: "ind = CHR ''e'' \<or> ind = CHR ''E''" and ds: "decimalDigits ds"
      by (auto simp: exponentPart_def decimalDigits_def split: if_splits)
    from splitSign_cases [OF sp] obtain sg where "signText sg" "r = sg @ ds"
      by blast
    with Cons ind ds have "exponentPartText ex"
      by (auto simp: exponentPartText_def)
    then show ?thesis ..
  qed
next
  assume "ex = [] \<or> exponentPartText ex"
  then show "exponentPart ex \<noteq> None"
  proof
    assume "ex = []"
    then show ?thesis by (simp add: exponentPart_def)
  next
    assume "exponentPartText ex"
    then obtain ind sg ds where ex: "ex = ind # sg @ ds"
      and ind: "ind = CHR ''e'' \<or> ind = CHR ''E''"
      and sg: "signText sg" and ds: "decimalDigits ds"
      by (auto simp: exponentPartText_def)
    from ds have "ds \<noteq> []" and "isDigitOf 10 (hd ds)"
      by (cases ds; simp add: decimalDigits_def)+
    then have "hd ds \<noteq> CHR ''+''" and "hd ds \<noteq> CHR ''-''"
      using digit_facts by auto
    from splitSign_sign [OF sg \<open>ds \<noteq> []\<close> this]
    have "splitSign (sg @ ds) = (sg = ''-'', ds)" .
    with ex ind ds show ?thesis
      by (auto simp: exponentPart_def decimalDigits_def)
  qed
qed

lemma exponent_start:
  assumes "ex = [] \<or> exponentPartText ex"
  shows "ex = [] \<or> \<not> isDigitOf 10 (hd ex)" and "ex = [] \<or> hd ex \<noteq> CHR ''.''"
  using assms digit_facts by (auto simp: exponentPartText_def)


lemma strUnsignedDecimalLiteral_text:
  assumes "strUnsignedDecimalLiteral u \<noteq> None"
  shows "strUnsignedDecimalText u"
proof -
  let ?ip = "takeWhile (isDigitOf 10) u" and ?r1 = "dropWhile (isDigitOf 10) u"
  have u: "u = ?ip @ ?r1" by simp
  have ip: "list_all (isDigitOf 10) ?ip"
    by (auto simp: list_all_iff dest: set_takeWhileD)
  show ?thesis
  proof (cases "\<exists>r. ?r1 = CHR ''.'' # r")
    case True
    then obtain r where r1: "?r1 = CHR ''.'' # r" ..
    let ?fp = "takeWhile (isDigitOf 10) r" and ?r2 = "dropWhile (isDigitOf 10) r"
    have r: "r = ?fp @ ?r2" by simp
    have fp: "list_all (isDigitOf 10) ?fp"
      by (auto simp: list_all_iff dest: set_takeWhileD)
    from assms have some: "?ip \<noteq> [] \<or> ?fp \<noteq> []" and "exponentPart ?r2 \<noteq> None"
      by (auto simp: strUnsignedDecimalLiteral_def Let_def r1 split: if_splits option.splits)
    then have ex: "?r2 = [] \<or> exponentPartText ?r2"
      by (simp only: exponentPart_iff)
    from u r1 r have shape: "u = ?ip @ ''.'' @ ?fp @ ?r2"
      by (metis append_Cons append_Nil)
    show ?thesis
    proof (cases "?ip = []")
      case False
      with ip fp ex shape show ?thesis
        unfolding strUnsignedDecimalText_def decimalDigits_def by blast
    next
      case True
      with some have "?fp \<noteq> []" by simp
      moreover from True shape have "u = ''.'' @ ?fp @ ?r2" by simp
      ultimately show ?thesis
        using True fp ex unfolding strUnsignedDecimalText_def decimalDigits_def by blast
    qed
  next
    case False
    have "(case ?r1 of [] \<Rightarrow> ([], []) | c # r \<Rightarrow>
                 if c = CHR ''.'' then (takeWhile (isDigitOf 10) r, dropWhile (isDigitOf 10) r)
                 else ([], ?r1)) = ([], ?r1)"
    proof (cases ?r1)
      case Nil
      show ?thesis unfolding Nil by simp
    next
      case (Cons c r)
      with False have "c \<noteq> CHR ''.''" by blast
      then show ?thesis unfolding Cons by simp
    qed
    with assms have ne: "?ip \<noteq> []" and "exponentPart ?r1 \<noteq> None"
      by (auto simp: strUnsignedDecimalLiteral_def Let_def split: if_splits option.splits)
    from this(2) have "?r1 = [] \<or> exponentPartText ?r1"
      by (simp only: exponentPart_iff)
    with ne ip u show ?thesis
      unfolding strUnsignedDecimalText_def decimalDigits_def by blast
  qed
qed

lemma text_strUnsignedDecimalLiteral:
  assumes "strUnsignedDecimalText u" and "u \<noteq> ''Infinity''"
  shows "strUnsignedDecimalLiteral u \<noteq> None"
proof -
  from assms obtain ip fp ex where ex: "ex = [] \<or> exponentPartText ex"
    and shape: "decimalDigits ip \<and> list_all (isDigitOf 10) fp \<and> u = ip @ ''.'' @ fp @ ex \<or>
                ip = [] \<and> decimalDigits fp \<and> u = ''.'' @ fp @ ex \<or>
                decimalDigits ip \<and> fp = [] \<and> u = ip @ ex"
    unfolding strUnsignedDecimalText_def by blast
  note st = exponent_start [OF ex]
  from ex have exp: "exponentPart ex \<noteq> None"
    by (simp only: exponentPart_iff)
  from shape show ?thesis
  proof (elim disjE conjE)
    assume ip: "decimalDigits ip" and fp: "list_all (isDigitOf 10) fp"
      and u: "u = ip @ ''.'' @ fp @ ex"
    from ip have "list_all (isDigitOf 10) ip" and ne: "ip \<noteq> []"
      by (simp_all add: decimalDigits_def)
    from digits_then [OF this(1), of "''.'' @ fp @ ex"] digit_facts(1)
    have a: "takeWhile (isDigitOf 10) u = ip" "dropWhile (isDigitOf 10) u = CHR ''.'' # fp @ ex"
      by (simp_all add: u)
    from digits_then [OF fp st(1)]
    have b: "takeWhile (isDigitOf 10) (fp @ ex) = fp" "dropWhile (isDigitOf 10) (fp @ ex) = ex" .
    from exp ne show ?thesis
      by (auto simp: strUnsignedDecimalLiteral_def Let_def a b)
  next
    assume ip: "ip = []" and fp: "decimalDigits fp" and u: "u = ''.'' @ fp @ ex"
    from fp have all: "list_all (isDigitOf 10) fp" and ne: "fp \<noteq> []"
      by (simp_all add: decimalDigits_def)
    have a: "takeWhile (isDigitOf 10) u = []" "dropWhile (isDigitOf 10) u = CHR ''.'' # fp @ ex"
      using digit_facts(1) by (simp_all add: u)
    from digits_then [OF all st(1)]
    have b: "takeWhile (isDigitOf 10) (fp @ ex) = fp" "dropWhile (isDigitOf 10) (fp @ ex) = ex" .
    from exp ne show ?thesis
      by (auto simp: strUnsignedDecimalLiteral_def Let_def a b)
  next
    assume ip: "decimalDigits ip" and fp: "fp = []" and u: "u = ip @ ex"
    from ip have all: "list_all (isDigitOf 10) ip" and ne: "ip \<noteq> []"
      by (simp_all add: decimalDigits_def)
    from digits_then [OF all st(1)]
    have a: "takeWhile (isDigitOf 10) u = ip" "dropWhile (isDigitOf 10) u = ex"
      by (simp_all add: u)
    from st(2) have "(case ex of [] \<Rightarrow> ([], []) | c # r \<Rightarrow>
                 if c = CHR ''.'' then (takeWhile (isDigitOf 10) r, dropWhile (isDigitOf 10) r)
                 else ([], ex)) = ([], ex)"
      by (cases ex) auto
    with exp ne show ?thesis
      by (auto simp: strUnsignedDecimalLiteral_def Let_def a)
  qed
qed

lemma strUnsignedDecimalText_start:
  assumes "strUnsignedDecimalText u"
  shows "u \<noteq> []" and "hd u \<noteq> CHR ''+''" and "hd u \<noteq> CHR ''-''"
proof -
  have "u \<noteq> [] \<and> (hd u = CHR ''I'' \<or> hd u = CHR ''.'' \<or> isDigitOf 10 (hd u))"
    using assms unfolding strUnsignedDecimalText_def decimalDigits_def
    by (elim disjE exE conjE) (auto simp: neq_Nil_conv)
  then show "u \<noteq> []" and "hd u \<noteq> CHR ''+''" and "hd u \<noteq> CHR ''-''"
    using digit_facts by auto
qed

lemma signedDecimalLiteral_iff:
  "signedDecimalLiteral E t \<noteq> NaN \<longleftrightarrow> strDecimalText t"
proof
  assume ok: "signedDecimalLiteral E t \<noteq> NaN"
  obtain negative u where sp: "splitSign t = (negative, u)"
    by (cases "splitSign t") auto
  with ok have "u = ''Infinity'' \<or> strUnsignedDecimalLiteral u \<noteq> None"
    by (auto simp: signedDecimalLiteral_def split: if_splits option.splits)
  then have "strUnsignedDecimalText u"
  proof
    assume "u = ''Infinity''"
    then show ?thesis by (simp add: strUnsignedDecimalText_def)
  next
    assume "strUnsignedDecimalLiteral u \<noteq> None"
    then show ?thesis by (rule strUnsignedDecimalLiteral_text)
  qed
  with splitSign_cases [OF sp] show "strDecimalText t"
    by (auto simp: strDecimalText_def)
next
  assume "strDecimalText t"
  then obtain sg u where t: "t = sg @ u" and sg: "signText sg" and u: "strUnsignedDecimalText u"
    by (auto simp: strDecimalText_def)
  from splitSign_sign [OF sg strUnsignedDecimalText_start [OF u]] t
  have sp: "splitSign t = (sg = ''-'', u)" by simp
  show "signedDecimalLiteral E t \<noteq> NaN"
  proof (cases "u = ''Infinity''")
    case True
    with sp show ?thesis
      by (simp add: signedDecimalLiteral_def signedInf_not_NaN)
  next
    case False
    from text_strUnsignedDecimalLiteral [OF u False] obtain q
      where "strUnsignedDecimalLiteral u = Some q" by auto
    with sp False show ?thesis
      by (simp add: signedDecimalLiteral_def fl_not_NaN)
  qed
qed

lemma nonDecimalIntegerLiteral_iff:
  "nonDecimalIntegerLiteral t \<noteq> None \<longleftrightarrow> nonDecimalIntegerText t"
  by (auto simp: nonDecimalIntegerLiteral_def nonDecimalIntegerText_def radixOf_def
      split: list.splits option.splits if_splits)

lemma isNumber_iff:
  "isNumber E token \<longleftrightarrow>
     trimString token = [] \<or> strNumericLiteralText (trimString token)"
proof (cases "trimString token = []")
  case True
  then show ?thesis
    by (simp add: isNumber_def Number_def)
next
  case False
  show ?thesis
  proof (cases "nonDecimalIntegerLiteral (trimString token)")
    case (Some n)
    then have "nonDecimalIntegerText (trimString token)"
      using nonDecimalIntegerLiteral_iff [of "trimString token"] by simp
    with False Some show ?thesis
      by (simp add: isNumber_def Number_def fl_not_NaN strNumericLiteralText_def)
  next
    case None
    then have "\<not> nonDecimalIntegerText (trimString token)"
      using nonDecimalIntegerLiteral_iff [of "trimString token"] by simp
    with False None show ?thesis
      by (simp add: isNumber_def Number_def strNumericLiteralText_def signedDecimalLiteral_iff)
  qed
qed


lemma digit_any_not_white: "isDigitOf base c \<Longrightarrow> \<not> isStrWhiteSpaceChar c"
  by (auto simp: isDigitOf_def digitValue_def Let_def isStrWhiteSpaceChar_def
      split: if_splits option.splits)

lemma all_digits_not_white:
  "list_all (isDigitOf base) ds \<Longrightarrow> c \<in> set ds \<Longrightarrow> \<not> isStrWhiteSpaceChar c"
  by (auto simp: list_all_iff dest: digit_any_not_white)

lemma signText_not_white: "signText sg \<Longrightarrow> c \<in> set sg \<Longrightarrow> \<not> isStrWhiteSpaceChar c"
  by (auto simp: signText_def isStrWhiteSpaceChar_def)

lemma exponentPartText_not_white:
  assumes "ex = [] \<or> exponentPartText ex" and "c \<in> set ex"
  shows "\<not> isStrWhiteSpaceChar c"
proof -
  from assms obtain ind sg ds where "ex = ind # sg @ ds"
    and ind: "ind = CHR ''e'' \<or> ind = CHR ''E''"
    and sg: "signText sg" and ds: "list_all (isDigitOf 10) ds"
    by (auto simp: exponentPartText_def decimalDigits_def)
  with assms(2) have "c = ind \<or> c \<in> set sg \<or> c \<in> set ds"
    by auto
  then show ?thesis
    using ind signText_not_white [OF sg] all_digits_not_white [OF ds]
    by (auto simp: isStrWhiteSpaceChar_def)
qed

lemma strUnsignedDecimalText_not_white:
  assumes "strUnsignedDecimalText u" and "c \<in> set u"
  shows "\<not> isStrWhiteSpaceChar c"
proof (cases "u = ''Infinity''")
  case True
  with assms(2) show ?thesis
    by (auto simp: isStrWhiteSpaceChar_def)
next
  case False
  with assms(1) obtain ip fp ex where ex: "ex = [] \<or> exponentPartText ex"
    and ip: "list_all (isDigitOf 10) ip" and fp: "list_all (isDigitOf 10) fp"
    and u: "set u \<subseteq> set ip \<union> {CHR ''.''} \<union> set fp \<union> set ex"
    unfolding strUnsignedDecimalText_def decimalDigits_def by fastforce
  from assms(2) u have "c \<in> set ip \<or> c = CHR ''.'' \<or> c \<in> set fp \<or> c \<in> set ex"
    by auto
  then show ?thesis
    using all_digits_not_white [OF ip] all_digits_not_white [OF fp]
      exponentPartText_not_white [OF ex]
    by (auto simp: isStrWhiteSpaceChar_def)
qed

lemma strNumericLiteralText_not_white:
  assumes "strNumericLiteralText t"
  shows "t \<noteq> []" and "c \<in> set t \<Longrightarrow> \<not> isStrWhiteSpaceChar c"
proof -
  from assms show "t \<noteq> []"
    by (auto simp: strNumericLiteralText_def strDecimalText_def nonDecimalIntegerText_def
        dest: strUnsignedDecimalText_start(1))
  assume c: "c \<in> set t"
  from assms show "\<not> isStrWhiteSpaceChar c"
    unfolding strNumericLiteralText_def
  proof
    assume "strDecimalText t"
    then obtain sg u where "t = sg @ u" "signText sg" "strUnsignedDecimalText u"
      by (auto simp: strDecimalText_def)
    with c show ?thesis
      by (auto dest: signText_not_white strUnsignedDecimalText_not_white)
  next
    assume "nonDecimalIntegerText t"
    then obtain x ds base where "t = CHR ''0'' # x # ds"
      and "x \<in> set ''xXoObB''" and "list_all (isDigitOf base) ds"
      by (auto simp: nonDecimalIntegerText_def)
    with c show ?thesis
      by (auto dest: all_digits_not_white) (simp_all add: isStrWhiteSpaceChar_def)
  qed
qed

lemma trimString_decompose:
  "token = takeWhile isStrWhiteSpaceChar token @ trimString token @
           rev (takeWhile isStrWhiteSpaceChar (rev (dropWhile isStrWhiteSpaceChar token)))"
proof -
  let ?m = "dropWhile isStrWhiteSpaceChar token"
  let ?tw = "takeWhile isStrWhiteSpaceChar (rev ?m)"
  let ?dw = "dropWhile isStrWhiteSpaceChar (rev ?m)"
  have "rev (?tw @ ?dw) = rev ?dw @ rev ?tw"
    by (rule rev_append)
  moreover have "rev (?tw @ ?dw) = ?m"
    by simp
  ultimately have "?m = trimString token @ rev ?tw"
    by (simp only: trimString_def)
  moreover have "token = takeWhile isStrWhiteSpaceChar token @ ?m"
    by simp
  ultimately show ?thesis
    by simp
qed

lemma trimString_blank:
  assumes "list_all isStrWhiteSpaceChar s"
  shows "trimString s = []"
proof -
  from assms have "dropWhile isStrWhiteSpaceChar s = []"
    by (simp add: list_all_iff)
  then show ?thesis
    by (simp only: trimString_def rev.simps dropWhile.simps)
qed

lemma trimString_around:
  assumes l: "list_all isStrWhiteSpaceChar l" and r: "list_all isStrWhiteSpaceChar r"
    and t: "t \<noteq> []" "\<not> isStrWhiteSpaceChar (hd t)" "\<not> isStrWhiteSpaceChar (last t)"
  shows "trimString (l @ t @ r) = t"
proof -
  from t have "t @ r = [] \<or> \<not> isStrWhiteSpaceChar (hd (t @ r))"
    by simp
  from digits_then(2) [OF l this] have a: "dropWhile isStrWhiteSpaceChar (l @ t @ r) = t @ r" .
  from r have r': "list_all isStrWhiteSpaceChar (rev r)"
    by (simp add: list_all_iff)
  from t have "rev t = [] \<or> \<not> isStrWhiteSpaceChar (hd (rev t))"
    by (simp add: hd_rev)
  from digits_then(2) [OF r' this]
  have b: "dropWhile isStrWhiteSpaceChar (rev r @ rev t) = rev t" .
  show ?thesis
    by (simp add: trimString_def a b)
qed

lemma isNumber_white_around:
  "isNumber E token \<longleftrightarrow>
     (\<exists>l t r. token = l @ t @ r \<and> list_all isStrWhiteSpaceChar l \<and>
              list_all isStrWhiteSpaceChar r \<and> (t = [] \<or> strNumericLiteralText t))"
proof
  assume "isNumber E token"
  then have lit: "trimString token = [] \<or> strNumericLiteralText (trimString token)"
    by (simp only: isNumber_iff)
  let ?l = "takeWhile isStrWhiteSpaceChar token"
  let ?r = "rev (takeWhile isStrWhiteSpaceChar (rev (dropWhile isStrWhiteSpaceChar token)))"
  have "list_all isStrWhiteSpaceChar ?l" and "list_all isStrWhiteSpaceChar ?r"
    by (auto simp: list_all_iff dest: set_takeWhileD)
  with lit trimString_decompose [of token]
  show "\<exists>l t r. token = l @ t @ r \<and> list_all isStrWhiteSpaceChar l \<and>
              list_all isStrWhiteSpaceChar r \<and> (t = [] \<or> strNumericLiteralText t)"
    by blast
next
  assume "\<exists>l t r. token = l @ t @ r \<and> list_all isStrWhiteSpaceChar l \<and>
              list_all isStrWhiteSpaceChar r \<and> (t = [] \<or> strNumericLiteralText t)"
  then obtain l t r where token: "token = l @ t @ r"
    and l: "list_all isStrWhiteSpaceChar l" and r: "list_all isStrWhiteSpaceChar r"
    and t: "t = [] \<or> strNumericLiteralText t"
    by blast
  from t show "isNumber E token"
  proof
    assume "t = []"
    with token l r have "list_all isStrWhiteSpaceChar token"
      by simp
    then have "trimString token = []"
      by (rule trimString_blank)
    then show ?thesis
      by (simp add: isNumber_iff)
  next
    assume lit: "strNumericLiteralText t"
    note nw = strNumericLiteralText_not_white [OF lit]
    from nw have "\<not> isStrWhiteSpaceChar (hd t)" and "\<not> isStrWhiteSpaceChar (last t)"
      by simp_all
    from trimString_around [OF l r nw(1) this] token have "trimString token = t"
      by simp
    with lit show ?thesis
      by (simp add: isNumber_iff)
  qed
qed


text \<open>
  Claim C5, as the code has it. \<open>isNumber\<close> holds of a token exactly when the token is
  white space (or nothing) around either nothing or a numeric literal of \<^verbatim>\<open>Number()\<close>: a
  decimal literal with an optional sign, an optional fractional part and an optional
  exponent, where the digits may be missing on one side of the point; \<^verbatim>\<open>Infinity\<close> with
  an optional sign; or an unsigned literal in base 16, 8 or 2. Every decimal literal of
  the specification is among them, and the other texts it names are rejected.
\<close>

theorem isNumber_numeric_text:
  "(isNumber E token \<longleftrightarrow>
      (\<exists>l t r. token = l @ t @ r \<and> list_all isStrWhiteSpaceChar l \<and>
               list_all isStrWhiteSpaceChar r \<and> (t = [] \<or> strNumericLiteralText t))) \<and>
   (specDecimalLiteral token \<longrightarrow> isNumber E token)"
proof
  show "isNumber E token \<longleftrightarrow>
      (\<exists>l t r. token = l @ t @ r \<and> list_all isStrWhiteSpaceChar l \<and>
               list_all isStrWhiteSpaceChar r \<and> (t = [] \<or> strNumericLiteralText t))"
    by (rule isNumber_white_around)
  show "specDecimalLiteral token \<longrightarrow> isNumber E token"
    by (simp add: specDecimalLiteral_isNumber)
qed

text \<open>
  The token -12.5 is a decimal literal of the specification, so it is a number; the
  token 1e3 between two spaces is a literal with an exponent part, so it is a number.
\<close>

theorem isNumber_numeric_text_witness:
  "specDecimalLiteral ''-12.5'' \<and> isNumber sampleEnv ''-12.5'' \<and>
   list_all isStrWhiteSpaceChar '' '' \<and> strNumericLiteralText ''1e3'' \<and>
   isNumber sampleEnv '' 1e3 ''"
proof -
  have literal: "specDecimalLiteral ''-12.5''"
    by (simp add: specDecimalLiteral_def splitSign_def isDigitOf_def digitValue_def)
  have white: "list_all isStrWhiteSpaceChar '' ''"
    by (simp add: isStrWhiteSpaceChar_def)
  have "exponentPartText ''e3''"
    unfolding exponentPartText_def
    by (rule exI [of _ "CHR ''e''"], rule exI [of _ "[]"], rule exI [of _ "''3''"])
       (simp add: signText_def decimalDigits_def isDigitOf_10_iff)
  then have "strUnsignedDecimalText ''1e3''"
    unfolding strUnsignedDecimalText_def
    by (intro disjI2, intro exI [of _ "''1''"] exI [of _ "[]"] exI [of _ "''e3''"])
       (simp add: decimalDigits_def isDigitOf_10_iff)
  then have "strDecimalText ''1e3''"
    unfolding strDecimalText_def
    by (intro exI [of _ "[]"] exI [of _ "''1e3''"]) (simp add: signText_def)
  then have shape: "strNumericLiteralText ''1e3''"
    by (simp add: strNumericLiteralText_def)
  have "'' 1e3 '' = '' '' @ ''1e3'' @ '' ''"
    by simp
  with white shape have
    "\<exists>l t r. '' 1e3 '' = l @ t @ r \<and> list_all isStrWhiteSpaceChar l \<and>
             list_all isStrWhiteSpaceChar r \<and> (t = [] \<or> strNumericLiteralText t)"
    by blast
  with isNumber_numeric_text [of sampleEnv "'' 1e3 ''"]
       isNumber_numeric_text [of sampleEnv "''-12.5''"] literal white shape
  show ?thesis
    by blast
qed

text \<open>Texts with a digit in them that are no literal.\<close>

lemma isNumber_rejects:
  "\<not> isNumber E ''12abc''" "\<not> isNumber E ''1+2''" "\<not> isNumber E ''7)''"
  "\<not> isNumber E ''1 2''" "\<not> isNumber E ''A1''" "\<not> isNumber E ''3A1''"
  "\<not> isNumber E ''+''" "\<not> isNumber E ''(''" "\<not> isNumber E ''.''"
  by (simp_all add: isNumber_def Number_simps)


text \<open>
  Claim C5 as stated fails on the empty string: \<^verbatim>\<open>Number("")\<close> is 0, not NaN, so the
  empty string is a number for \<open>isNumber\<close>, and it is no decimal literal. The same holds
  of a literal between white space, of \<^verbatim>\<open>Infinity\<close>, of a literal with an exponent, of a
  literal in base 16, and of a literal with no digit before or after the point.
\<close>

theorem isNumber_empty_string_counterexample:
  "isNumber sampleEnv [] \<and> \<not> specDecimalLiteral [] \<and>
   isNumber sampleEnv '' 7 '' \<and> \<not> specDecimalLiteral '' 7 '' \<and>
   isNumber sampleEnv ''Infinity'' \<and> \<not> specDecimalLiteral ''Infinity'' \<and>
   isNumber sampleEnv ''1e3'' \<and> \<not> specDecimalLiteral ''1e3'' \<and>
   isNumber sampleEnv ''0x1F'' \<and> \<not> specDecimalLiteral ''0x1F'' \<and>
   isNumber sampleEnv ''5.'' \<and> \<not> specDecimalLiteral ''5.'' \<and>
   isNumber sampleEnv ''.5'' \<and> \<not> specDecimalLiteral ''.5''"
  by (simp add: isNumber_def Number_simps number_simps specDecimalLiteral_def sampleEnv_def)

section \<open>Cell values\<close>

text \<open>
  Claim C6. A token that the memory accepts as a label, whose cell stores an error that
  is neither empty nor "empty formula": \<open>getCellValue\<close> returns 0 and that error as it
  is. The formula of the cell is not looked at, so this holds when it is empty too.
\<close>

theorem getCellValue_genuine_error:
  assumes "isValidCellLabel (sheetMemory this) token"
    and "getError (getCellByLabel (sheetMemory this) token) = e"
    and "e \<noteq> []" and "e \<noteq> emptyFormula"
  shows "getCellValue this token = (Fin 0, e)"
  using assms by (simp add: getCellValue_def Let_def)

text \<open>Cell A1 of the sample sheet: an error of its own and an empty formula.\<close>

theorem getCellValue_genuine_error_witness:
  "isValidCellLabel (sheetMemory (newFormulaEvaluator sampleMemory)) ''A1'' \<and>
   getError (getCellByLabel (sheetMemory (newFormulaEvaluator sampleMemory)) ''A1'') = ''#REF!'' \<and>
   getFormula (getCellByLabel (sheetMemory (newFormulaEvaluator sampleMemory)) ''A1'') = [] \<and>
   ''#REF!'' \<noteq> [] \<and> ''#REF!'' \<noteq> emptyFormula \<and>
   getCellValue (newFormulaEvaluator sampleMemory) ''A1'' = (Fin 0, ''#REF!'')"
proof -
  have a: "isValidCellLabel (sheetMemory (newFormulaEvaluator sampleMemory)) ''A1''"
    and b: "getError (getCellByLabel (sheetMemory (newFormulaEvaluator sampleMemory)) ''A1'') = ''#REF!''"
    and c: "getFormula (getCellByLabel (sheetMemory (newFormulaEvaluator sampleMemory)) ''A1'') = []"
    and d: "''#REF!'' \<noteq> []" "''#REF!'' \<noteq> emptyFormula"
    by (simp_all add: sample_simps ErrorMessages_defs)
  from getCellValue_genuine_error [OF a b d] a b c d show ?thesis
    by simp
qed

text \<open>
  Claim C7. A label that the memory rejects gives (0, "invalid cell"). So does a label
  it accepts whose cell has the error empty or "empty formula" and an empty formula:
  "empty formula" is not handed on, the two messages differ.
\<close>

theorem getCellValue_invalid_cell:
  "(\<not> isValidCellLabel (sheetMemory this) token \<longrightarrow>
      getCellValue this token = (Fin 0, invalidCell)) \<and>
   (isValidCellLabel (sheetMemory this) token \<and>
    (getError (getCellByLabel (sheetMemory this) token) = [] \<or>
     getError (getCellByLabel (sheetMemory this) token) = emptyFormula) \<and>
    getFormula (getCellByLabel (sheetMemory this) token) = [] \<longrightarrow>
      getCellValue this token = (Fin 0, invalidCell)) \<and>
   invalidCell \<noteq> emptyFormula"
  by (auto simp: getCellValue_def Let_def ErrorMessages_defs)

text \<open>The unknown label Z9 and the empty cell B2 of the sample sheet.\<close>

theorem getCellValue_invalid_cell_witness:
  "\<not> isValidCellLabel (sheetMemory (newFormulaEvaluator sampleMemory)) ''Z9'' \<and>
   getCellValue (newFormulaEvaluator sampleMemory) ''Z9'' = (Fin 0, invalidCell) \<and>
   isValidCellLabel (sheetMemory (newFormulaEvaluator sampleMemory)) ''B2'' \<and>
   getError (getCellByLabel (sheetMemory (newFormulaEvaluator sampleMemory)) ''B2'') = emptyFormula \<and>
   getFormula (getCellByLabel (sheetMemory (newFormulaEvaluator sampleMemory)) ''B2'') = [] \<and>
   getCellValue (newFormulaEvaluator sampleMemory) ''B2'' = (Fin 0, invalidCell)"
proof -
  have a: "\<not> isValidCellLabel (sheetMemory (newFormulaEvaluator sampleMemory)) ''Z9''"
    and b: "isValidCellLabel (sheetMemory (newFormulaEvaluator sampleMemory)) ''B2''"
    and c: "getError (getCellByLabel (sheetMemory (newFormulaEvaluator sampleMemory)) ''B2'') = emptyFormula"
    and d: "getFormula (getCellByLabel (sheetMemory (newFormulaEvaluator sampleMemory)) ''B2'') = []"
    by (simp_all add: sample_simps)
  from getCellValue_invalid_cell [of "newFormulaEvaluator sampleMemory" "''Z9''"]
       getCellValue_invalid_cell [of "newFormulaEvaluator sampleMemory" "''B2''"]
       a b c d
  show ?thesis by simp
qed

section \<open>Evaluating twice\<close>

lemma reset_evaluate: "reset (evaluate E formula this) = reset this"
  using evaluate_sameObject [of this E formula]
  by (simp add: reset_def sameObject_def)

lemma reset_reset: "reset (reset this) = reset this"
  by (simp add: reset_def)

lemma reset_assign: "reset (this\<lparr>result := r, errorMessage := m\<rparr>) = reset this"
  by (simp add: reset_def)

lemma initialState_reset: "initialState (reset this) = initialState this"
  by (simp add: initialState_def reset_reset)

lemma evaluate_reset: "evaluate E formula (reset this) = evaluate E formula this"
  by (simp add: evaluate_def Let_def reset_reset initialState_reset cong: if_cong)

text \<open>
  Claim C8. Calling \<open>evaluate\<close> a second time with the same formula, on the object the
  first call left, gives the same result and the same error: the call starts by
  resetting both, so the values they had do not matter, and the stacks are local to the
  call. The memory is a field of the object, and no call assigns it.
\<close>

theorem evaluate_idempotent:
  "result (evaluate E formula (evaluate E formula this)) = result (evaluate E formula this) \<and>
   error (evaluate E formula (evaluate E formula this)) = error (evaluate E formula this) \<and>
   evaluate E formula (this\<lparr>result := r, errorMessage := m\<rparr>) = evaluate E formula this"
proof -
  have "evaluate E formula (evaluate E formula this) =
        evaluate E formula (reset (evaluate E formula this))"
    by (simp add: evaluate_reset)
  also have "\<dots> = evaluate E formula this"
    by (simp add: reset_evaluate evaluate_reset)
  finally have twice: "evaluate E formula (evaluate E formula this) = evaluate E formula this" .
  have "evaluate E formula (this\<lparr>result := r, errorMessage := m\<rparr>) =
        evaluate E formula (reset (this\<lparr>result := r, errorMessage := m\<rparr>))"
    by (simp only: evaluate_reset)
  also have "\<dots> = evaluate E formula this"
    by (simp only: reset_assign evaluate_reset)
  finally show ?thesis
    using twice by simp
qed

section \<open>Precedence and parentheses\<close>

lemma operator_not_number:
  "\<not> isNumber E ''+''" "\<not> isNumber E ''-''" "\<not> isNumber E ''*''" "\<not> isNumber E ''/''"
  "\<not> isNumber E ''(''" "\<not> isNumber E '')''"
  by (simp_all add: isNumber_def Number_simps)

text \<open>
  The two formulas of claim C9, for every engine whose rounding keeps the integers that
  occur and every label check that rejects the operators and the parentheses.
\<close>

lemma evaluate_precedence_examples:
  assumes "\<forall>q \<in> set [1, 2, 3, 4, 9, 12, 14]. rnd E q = Some q"
    and "\<forall>token \<in> set [''('', '')'', ''+'', ''*'']. \<not> isCellReference E token"
  shows "result (evaluate E [''('', ''1'', ''+'', ''2'', '')'', ''*'', ''3''] this) = Fin 9 \<and>
         error (evaluate E [''('', ''1'', ''+'', ''2'', '')'', ''*'', ''3''] this) = [] \<and>
         result (evaluate E [''3'', ''*'', ''4'', ''+'', ''2''] this) = Fin 14 \<and>
         error (evaluate E [''3'', ''*'', ''4'', ''+'', ''2''] this) = []"
  using assms by (simp add: number_simps Number_simps evaluate_simps)

text \<open>
  Three operands, with the rule written with the operators themselves: for all number
  tokens a, b and c and all operators op1 and op2 of the four, a op1 b op2 c is
  a op1 (b op2 c) when op1 is + or - and op2 is * or /, and (a op1 b) op2 c otherwise;
  parentheses around a op1 b or around b op2 c make that the operand, whatever the
  operators.
\<close>

lemma evaluate_three_operands:
  assumes "isNumber E a" and "isNumber E b" and "isNumber E c"
    and "op1 \<in> set [''+'', ''-'', ''*'', ''/'']" and "op2 \<in> set [''+'', ''-'', ''*'', ''/'']"
    and "\<forall>t \<in> set [''+'', ''-'', ''*'', ''/'', ''('', '')'']. \<not> isCellReference E t"
  shows
    "(nonZeroDivisor op1 (Number E b) \<and> nonZeroDivisor op2 (Number E c) \<longrightarrow>
        result (evaluate E [a, op1, b, op2, c] this) =
          orZero (if op1 \<in> set [''+'', ''-''] \<and> op2 \<in> set [''*'', ''/'']
                  then applyOperator E op1 (Number E a)
                         (applyOperator E op2 (Number E b) (Number E c))
                  else applyOperator E op2
                         (applyOperator E op1 (Number E a) (Number E b)) (Number E c)) \<and>
        error (evaluate E [a, op1, b, op2, c] this) = [] \<and>
        result (evaluate E [''('', a, op1, b, '')'', op2, c] this) =
          orZero (applyOperator E op2
                    (applyOperator E op1 (Number E a) (Number E b)) (Number E c)) \<and>
        error (evaluate E [''('', a, op1, b, '')'', op2, c] this) = []) \<and>
     (nonZeroDivisor op2 (Number E c) \<and>
      nonZeroDivisor op1 (applyOperator E op2 (Number E b) (Number E c)) \<longrightarrow>
        result (evaluate E [a, op1, ''('', b, op2, c, '')''] this) =
          orZero (applyOperator E op1 (Number E a)
                    (applyOperator E op2 (Number E b) (Number E c))) \<and>
        error (evaluate E [a, op1, ''('', b, op2, c, '')''] this) = [])"
  using assms
  apply (simp only: set_simps insert_iff empty_iff)
  apply (elim disjE)
  apply (simp_all add: operator_not_number machine_simps applyOperator_def nonZeroDivisor_def)
  done

text \<open>
  Formulas of any size. \<open>compute\<close> applies a pending operator to the two operands on top;
  a multiplication or division waits until the next operator, closing parenthesis or the
  end; an addition or subtraction waits until the next addition, subtraction, closing
  parenthesis or the end.
\<close>

lemma compute_pending:
  assumes "op \<in> set [''+'', ''-'', ''*'', ''/'']" and "nonZeroDivisor op b"
  shows "compute E (pushOperand b (pendingOperator s a op)) =
           Normal (pushOperand (applyOperator E op a b) s)"
  using assms
  by (auto simp: compute_def Let_def pushOperand_def pendingOperator_def applyOperator_def
      nonZeroDivisor_def butlast_append)

lemma token_facts:
  "mulopToken op \<in> set [''+'', ''-'', ''*'', ''/'']"
  "addopToken aop \<in> set [''+'', ''-'', ''*'', ''/'']"
  "nonZeroDivisor (addopToken aop) b"
  "precedence (mulopToken op) = Rank 2" "precedence (addopToken aop) = Rank 1"
  "precedence ''('' = Rank 0" "precedence ''+'' = Rank 1" "precedence ''-'' = Rank 1"
  "mulopToken op \<noteq> ''(''" "addopToken aop \<noteq> ''(''"
  "mulopToken op \<noteq> '')''" "addopToken aop \<noteq> '')''"
  by (cases op; cases aop;
      simp add: mulopToken_def addopToken_def nonZeroDivisor_def precedence_def
        objectPrototypeMembers_def)+

lemma operatorLoop_stop:
  assumes "operatorsStack s = [] \<or>
           \<not> precedenceGE E (precedence (last (operatorsStack s))) (precedence token)"
  shows "operatorLoop E token s = Normal s"
  using assms by (subst operatorLoop.simps) auto

lemma operatorLoop_step:
  assumes "operatorsStack s \<noteq> []"
    and "precedenceGE E (precedence (last (operatorsStack s))) (precedence token)"
    and "compute E s = Normal s'"
  shows "operatorLoop E token s = operatorLoop E token s'"
  using assms by (subst operatorLoop.simps) simp

lemma stacks_simps [simp]:
  "operatorsStack (pushOperand v s) = operatorsStack s"
  "operandsStack (pushOperand v s) = operandsStack s @ [v]"
  "self (pushOperand v s) = self s"
  "operatorsStack (pendingOperator s a op) = operatorsStack s @ [op]"
  "operandsStack (pendingOperator s a op) = operandsStack s @ [a]"
  "self (pendingOperator s a op) = self s"
  by (simp_all add: pushOperand_def pendingOperator_def)

lemma operatorLoop_product:
  assumes "productPending E s0 v s1" and "lowTop s0"
  shows "operatorLoop E (mulopToken op) s1 = Normal (pushOperand v s0)"
proof -
  have stop: "operatorLoop E (mulopToken op) (pushOperand v s0) = Normal (pushOperand v s0)"
    using assms(2)
    by (intro operatorLoop_stop) (auto simp: lowTop_def token_facts precedenceGE_def)
  from assms(1) show ?thesis
    unfolding productPending_def
  proof (elim disjE exE conjE)
    assume "s1 = pushOperand v s0"
    with stop show ?thesis by simp
  next
    fix a b op'
    assume s1: "s1 = pushOperand b (pendingOperator s0 a (mulopToken op'))"
      and nz: "nonZeroDivisor (mulopToken op') b"
      and v: "applyOperator E (mulopToken op') a b = v"
    from compute_pending [OF token_facts(1) nz] v s1
    have "compute E s1 = Normal (pushOperand v s0)" by simp
    from operatorLoop_step [OF _ _ this] stop s1 show ?thesis
      by (simp add: token_facts precedenceGE_def)
  qed
qed


lemma expressionPending_cases:
  assumes "expressionPending E s0 v s1"
  obtains (none) "s1 = pushOperand v s0"
  | (one) op a b where "op \<in> set [''+'', ''-'', ''*'', ''/'']" and "nonZeroDivisor op b"
      and "s1 = pushOperand b (pendingOperator s0 a op)" and "applyOperator E op a b = v"
  | (two) op1 op2 a b c where "op1 \<in> set [''+'', ''-'', ''*'', ''/'']"
      and "op2 \<in> set [''+'', ''-'', ''*'', ''/'']"
      and "nonZeroDivisor op2 c" and "nonZeroDivisor op1 (applyOperator E op2 b c)"
      and "s1 = pushOperand c (pendingOperator (pendingOperator s0 a op1) b op2)"
      and "applyOperator E op1 a (applyOperator E op2 b c) = v"
  using assms unfolding expressionPending_def productPending_def
  by (elim disjE exE conjE) (use token_facts in blast)+

lemma closeParenLoop_stop:
  assumes "operatorsStack s = [] \<or> last (operatorsStack s) = ''(''"
  shows "closeParenLoop E s = Normal s"
  using assms by (subst closeParenLoop.simps) auto

lemma closeParenLoop_step:
  assumes "operatorsStack s \<noteq> []" and "last (operatorsStack s) \<noteq> ''(''"
    and "compute E s = Normal s'"
  shows "closeParenLoop E s = closeParenLoop E s'"
  using assms by (subst closeParenLoop.simps) simp

lemma drainLoop_stop:
  assumes "operatorsStack s = []"
  shows "drainLoop E s = Normal s"
  using assms by (subst drainLoop.simps) auto

lemma drainLoop_step:
  assumes "operatorsStack s \<noteq> []" and "last (operatorsStack s) \<noteq> ''(''"
    and "compute E s = Normal s'"
  shows "drainLoop E s = drainLoop E s'"
  using assms by (subst drainLoop.simps) simp

lemma operator_token_facts:
  assumes "op \<in> set [''+'', ''-'', ''*'', ''/'']"
  shows "op \<noteq> ''(''" and "precedenceGE E (precedence op) (precedence (addopToken aop))"
proof -
  from assms show "op \<noteq> ''(''"
    by auto
  from assms have "precedence op = Rank 1 \<or> precedence op = Rank 2"
    by (auto simp: precedence_def)
  then show "precedenceGE E (precedence op) (precedence (addopToken aop))"
    by (auto simp: precedenceGE_def token_facts(5))
qed

text \<open>Every pending operator is applied before an addition or subtraction is pushed.\<close>

lemma operatorLoop_expression:
  assumes "expressionPending E s0 v s1" and "baseTop s0"
  shows "operatorLoop E (addopToken aop) s1 = Normal (pushOperand v s0)"
proof -
  have stop: "operatorLoop E (addopToken aop) (pushOperand v s0) = Normal (pushOperand v s0)"
    using assms(2)
    by (intro operatorLoop_stop) (auto simp: baseTop_def token_facts precedenceGE_def)
  from assms(1) show ?thesis
  proof (cases rule: expressionPending_cases)
    case none
    with stop show ?thesis by simp
  next
    case (one op a b)
    from compute_pending [OF one(1,2)] one(3,4)
    have "compute E s1 = Normal (pushOperand v s0)" by simp
    from operatorLoop_step [OF _ _ this] stop one(3) operator_token_facts [OF one(1)]
    show ?thesis by simp
  next
    case (two op1 op2 a b c)
    let ?s = "pushOperand (applyOperator E op2 b c) (pendingOperator s0 a op1)"
    from compute_pending [OF two(2,3)] two(5)
    have c1: "compute E s1 = Normal ?s" by simp
    from compute_pending [OF two(1,4)] two(6)
    have c2: "compute E ?s = Normal (pushOperand v s0)" by simp
    from operatorLoop_step [OF _ _ c1] two(5) operator_token_facts [OF two(2)]
    have "operatorLoop E (addopToken aop) s1 = operatorLoop E (addopToken aop) ?s" by simp
    also from operatorLoop_step [OF _ _ c2] operator_token_facts [OF two(1)]
    have "\<dots> = operatorLoop E (addopToken aop) (pushOperand v s0)" by simp
    finally show ?thesis using stop by simp
  qed
qed

text \<open>Every pending operator is applied when the parenthesis closes.\<close>

lemma closeParenLoop_expression:
  assumes "expressionPending E s0 v s1"
    and "operatorsStack s0 \<noteq> []" and "last (operatorsStack s0) = ''(''"
  shows "closeParenLoop E s1 = Normal (pushOperand v s0)"
proof -
  have stop: "closeParenLoop E (pushOperand v s0) = Normal (pushOperand v s0)"
    using assms(3) by (intro closeParenLoop_stop) simp
  from assms(1) show ?thesis
  proof (cases rule: expressionPending_cases)
    case none
    with stop show ?thesis by simp
  next
    case (one op a b)
    from compute_pending [OF one(1,2)] one(3,4)
    have "compute E s1 = Normal (pushOperand v s0)" by simp
    from closeParenLoop_step [OF _ _ this] stop one(3) operator_token_facts(1) [OF one(1)]
    show ?thesis by simp
  next
    case (two op1 op2 a b c)
    let ?s = "pushOperand (applyOperator E op2 b c) (pendingOperator s0 a op1)"
    from compute_pending [OF two(2,3)] two(5)
    have c1: "compute E s1 = Normal ?s" by simp
    from compute_pending [OF two(1,4)] two(6)
    have c2: "compute E ?s = Normal (pushOperand v s0)" by simp
    from closeParenLoop_step [OF _ _ c1] two(5) operator_token_facts(1) [OF two(2)]
    have "closeParenLoop E s1 = closeParenLoop E ?s" by simp
    also from closeParenLoop_step [OF _ _ c2] operator_token_facts(1) [OF two(1)]
    have "\<dots> = closeParenLoop E (pushOperand v s0)" by simp
    finally show ?thesis using stop by simp
  qed
qed

text \<open>Every pending operator is applied in the drain.\<close>

lemma drainLoop_expression:
  assumes "expressionPending E s0 v s1" and "operatorsStack s0 = []"
  shows "drainLoop E s1 = Normal (pushOperand v s0)"
proof -
  have stop: "drainLoop E (pushOperand v s0) = Normal (pushOperand v s0)"
    using assms(2) by (intro drainLoop_stop) simp
  from assms(1) show ?thesis
  proof (cases rule: expressionPending_cases)
    case none
    with stop show ?thesis by simp
  next
    case (one op a b)
    from compute_pending [OF one(1,2)] one(3,4)
    have "compute E s1 = Normal (pushOperand v s0)" by simp
    from drainLoop_step [OF _ _ this] stop one(3) operator_token_facts(1) [OF one(1)]
    show ?thesis by simp
  next
    case (two op1 op2 a b c)
    let ?s = "pushOperand (applyOperator E op2 b c) (pendingOperator s0 a op1)"
    from compute_pending [OF two(2,3)] two(5)
    have c1: "compute E s1 = Normal ?s" by simp
    from compute_pending [OF two(1,4)] two(6)
    have c2: "compute E ?s = Normal (pushOperand v s0)" by simp
    from drainLoop_step [OF _ _ c1] two(5) operator_token_facts(1) [OF two(2)]
    have "drainLoop E s1 = drainLoop E ?s" by simp
    also from drainLoop_step [OF _ _ c2] operator_token_facts(1) [OF two(1)]
    have "\<dots> = drainLoop E (pushOperand v s0)" by simp
    finally show ?thesis using stop by simp
  qed
qed


lemma scanToken_number:
  "isNumber E a \<Longrightarrow> scanToken E a s = Normal (pushOperand (Number E a) s)"
  by (simp add: scanToken_def)

lemma scanToken_open:
  "signsNotCells E \<Longrightarrow>
   scanToken E ''('' s = Normal (s\<lparr>operatorsStack := operatorsStack s @ [''('']\<rparr>)"
  by (simp add: scanToken_def signsNotCells_def operator_not_number)

lemma scanToken_close:
  "signsNotCells E \<Longrightarrow> closeParenLoop E s = Normal s' \<Longrightarrow>
   scanToken E '')'' s = Normal (s'\<lparr>operatorsStack := butlast (operatorsStack s')\<rparr>)"
  by (simp add: scanToken_def signsNotCells_def operator_not_number)

lemma scanToken_operator:
  assumes "signsNotCells E" and "op \<in> set [''+'', ''-'', ''*'', ''/'']"
    and "operatorLoop E op s = Normal s'"
  shows "scanToken E op s = Normal (s'\<lparr>operatorsStack := operatorsStack s' @ [op]\<rparr>)"
  using assms by (auto simp: scanToken_def signsNotCells_def operator_not_number)

lemma push_after_operator:
  "(pushOperand a s)\<lparr>operatorsStack := operatorsStack (pushOperand a s) @ [op]\<rparr> =
   pendingOperator s a op"
  by (simp add: pushOperand_def pendingOperator_def)

lemma pop_open_paren:
  "(pushOperand v (s\<lparr>operatorsStack := operatorsStack s @ [''('']\<rparr>))
     \<lparr>operatorsStack :=
        butlast (operatorsStack (pushOperand v (s\<lparr>operatorsStack := operatorsStack s @ [''('']\<rparr>)))\<rparr> =
   pushOperand v s"
  by (simp add: pushOperand_def)

lemma scan_grammar:
  assumes cells: "signsNotCells E"
  shows scan_operand:
    "operandNumbers E x \<Longrightarrow> operandValue E x = Some v \<Longrightarrow>
       scanTokens E (operandTokens x) s0 = Normal (pushOperand v s0)"
  and scan_product:
    "productNumbers E p \<Longrightarrow> productValue E p = Some v \<Longrightarrow> lowTop s0 \<Longrightarrow>
       \<exists>s1. scanTokens E (productTokens p) s0 = Normal s1 \<and> productPending E s0 v s1"
  and scan_expression:
    "expressionNumbers E e \<Longrightarrow> expressionValue E e = Some v \<Longrightarrow> baseTop s0 \<Longrightarrow>
       \<exists>s1. scanTokens E (expressionTokens e) s0 = Normal s1 \<and> expressionPending E s0 v s1"
proof (induction x and p and e arbitrary: v s0 and v s0 and v s0)
  case (Literal a)
  then show ?case
    by (simp add: scanToken_number)
next
  case (Parens e)
  let ?s = "s0\<lparr>operatorsStack := operatorsStack s0 @ [''('']\<rparr>"
  have "baseTop ?s"
    by (simp add: baseTop_def)
  with Parens obtain s1 where s1: "scanTokens E (expressionTokens e) ?s = Normal s1"
    and pend: "expressionPending E ?s v s1"
    by fastforce
  from closeParenLoop_expression [OF pend]
  have "closeParenLoop E s1 = Normal (pushOperand v ?s)"
    by simp
  from scanToken_close [OF cells this]
  have "scanToken E '')'' s1 = Normal (pushOperand v s0)"
    by (simp only: pop_open_paren)
  with s1 show ?case
    by (simp add: scanToken_open [OF cells] scanTokens_append)
next
  case (Operand x)
  then show ?case
    by (simp add: productPending_def)
next
  case (MulDiv p op x)
  from MulDiv.prems obtain a b where a: "productValue E p = Some a"
    and b: "operandValue E x = Some b"
    and nz: "nonZeroDivisor (mulopToken op) b"
    and v: "applyOperator E (mulopToken op) a b = v"
    by (auto split: option.splits if_splits)
  from MulDiv.IH(1) [OF _ a \<open>lowTop s0\<close>] MulDiv.prems(1)
  obtain s1 where s1: "scanTokens E (productTokens p) s0 = Normal s1"
    and pend: "productPending E s0 a s1"
    by auto
  from operatorLoop_product [OF pend \<open>lowTop s0\<close>]
  have "operatorLoop E (mulopToken op) s1 = Normal (pushOperand a s0)" .
  from scanToken_operator [OF cells token_facts(1) this]
  have tok: "scanToken E (mulopToken op) s1 = Normal (pendingOperator s0 a (mulopToken op))"
    by (simp only: push_after_operator)
  from MulDiv.IH(2) [OF _ b] MulDiv.prems(1)
  have "scanTokens E (operandTokens x) (pendingOperator s0 a (mulopToken op)) =
        Normal (pushOperand b (pendingOperator s0 a (mulopToken op)))"
    by simp
  with s1 tok have "scanTokens E (productTokens (MulDiv p op x)) s0 =
      Normal (pushOperand b (pendingOperator s0 a (mulopToken op)))"
    by (simp add: scanTokens_append)
  moreover from nz v
  have "productPending E s0 v (pushOperand b (pendingOperator s0 a (mulopToken op)))"
    unfolding productPending_def by blast
  ultimately show ?case
    by blast
next
  case (Product p)
  from \<open>baseTop s0\<close> have "lowTop s0"
    by (auto simp: baseTop_def lowTop_def)
  with Product show ?case
    by (fastforce simp: expressionPending_def)
next
  case (AddSub e op p)
  from AddSub.prems obtain a b where a: "expressionValue E e = Some a"
    and b: "productValue E p = Some b"
    and v: "applyOperator E (addopToken op) a b = v"
    by (auto split: option.splits)
  from AddSub.IH(1) [OF _ a \<open>baseTop s0\<close>] AddSub.prems(1)
  obtain s1 where s1: "scanTokens E (expressionTokens e) s0 = Normal s1"
    and pend: "expressionPending E s0 a s1"
    by auto
  from operatorLoop_expression [OF pend \<open>baseTop s0\<close>]
  have "operatorLoop E (addopToken op) s1 = Normal (pushOperand a s0)" .
  from scanToken_operator [OF cells token_facts(2) this]
  have tok: "scanToken E (addopToken op) s1 = Normal (pendingOperator s0 a (addopToken op))"
    by (simp only: push_after_operator)
  have "lowTop (pendingOperator s0 a (addopToken op))"
    by (cases op) (simp_all add: lowTop_def addopToken_def)
  from AddSub.IH(2) [OF _ b this] AddSub.prems(1)
  obtain s2 where s2: "scanTokens E (productTokens p) (pendingOperator s0 a (addopToken op)) =
      Normal s2"
    and pend2: "productPending E (pendingOperator s0 a (addopToken op)) b s2"
    by auto
  from s1 tok s2 have "scanTokens E (expressionTokens (AddSub e op p)) s0 = Normal s2"
    by (simp add: scanTokens_append)
  moreover from pend2 v have "expressionPending E s0 v s2"
    unfolding expressionPending_def by blast
  ultimately show ?case
    by blast
qed


lemma tokens_not_empty:
  "operandTokens x \<noteq> []" "productTokens p \<noteq> []" "expressionTokens e \<noteq> []"
  by (induction x and p and e) simp_all

lemma single_token:
  assumes "length (expressionTokens e) = 1"
  shows "\<exists>a. e = Product (Operand (Literal a))"
proof (cases e)
  case (AddSub e' op p)
  with assms tokens_not_empty(3) [of e'] show ?thesis
    by simp
next
  case (Product p)
  show ?thesis
  proof (cases p)
    case (MulDiv p' op x)
    with assms Product tokens_not_empty(2) [of p'] show ?thesis
      by simp
  next
    case (Operand x)
    with assms Product show ?thesis
      by (cases x) simp_all
  qed
qed

lemma orZero_Number: "isNumber E a \<Longrightarrow> orZero (Number E a) = Number E a"
  by (auto simp: isNumber_def orZero_def)

text \<open>
  Claim C9. For every expression of number tokens, with any nesting of parentheses,
  whose value is defined (no division has a zero divisor): \<open>evaluate\<close> on its tokens
  leaves the value of the expression as the result (read through \<^verbatim>\<open>|| 0\<close>) and the empty
  error. The value is that of the tree: * and / are applied before + and -, operators
  of the same rank from the left, and an expression in parentheses is an operand. This
  holds for every engine and every label check that rejects the operators and the
  parentheses.
\<close>

theorem evaluate_expression:
  assumes "signsNotCells E" and "expressionNumbers E e" and "expressionValue E e = Some v"
  shows "result (evaluate E (expressionTokens e) this) = orZero v \<and>
         error (evaluate E (expressionTokens e) this) = []"
proof (cases "length (expressionTokens e) = 1")
  case True
  then obtain a where e: "e = Product (Operand (Literal a))"
    using single_token by blast
  with assms have "isNumber E a" and "v = Number E a"
    by simp_all
  with e orZero_Number [of E a] show ?thesis
    by (simp add: evaluate_def Let_def reset_def)
next
  case False
  with tokens_not_empty(3) [of e] have multi: "1 < length (expressionTokens e)"
    by (cases "expressionTokens e") auto
  have "baseTop (initialState this)"
    by (simp add: baseTop_def initialState_def)
  from scan_expression [OF assms this] obtain s1
    where s1: "scanTokens E (expressionTokens e) (initialState this) = Normal s1"
      and pend: "expressionPending E (initialState this) v s1"
    by blast
  from drainLoop_expression [OF pend]
  have "drainLoop E s1 = Normal (pushOperand v (initialState this))"
    by (simp add: initialState_def)
  with s1 have "tryBlock E (expressionTokens e) (initialState this) =
      Normal (setResult (orZero v) (initialState this))"
    by (simp add: tryBlock_def initialState_def pushOperand_def setResult_def)
  with multi show ?thesis
    by (simp add: evaluate_multi_token setResult_def initialState_def reset_def)
qed

text \<open>
  On the sample engine: ( 1 + 2 ) * 3 is 9 and 3 * 4 + 2 is 14, the formulas of the
  claim; 2 + 3 * 4 is 14, not 20.
\<close>

theorem evaluate_expression_witness:
  "signsNotCells sampleEnv \<and>
   expressionTokens formulaOne = [''('', ''1'', ''+'', ''2'', '')'', ''*'', ''3''] \<and>
   expressionNumbers sampleEnv formulaOne \<and>
   expressionValue sampleEnv formulaOne = Some (Fin 9) \<and>
   result (evaluate sampleEnv [''('', ''1'', ''+'', ''2'', '')'', ''*'', ''3'']
             (newFormulaEvaluator sampleMemory)) = Fin 9 \<and>
   error (evaluate sampleEnv [''('', ''1'', ''+'', ''2'', '')'', ''*'', ''3'']
            (newFormulaEvaluator sampleMemory)) = [] \<and>
   expressionTokens formulaTwo = [''3'', ''*'', ''4'', ''+'', ''2''] \<and>
   expressionNumbers sampleEnv formulaTwo \<and>
   expressionValue sampleEnv formulaTwo = Some (Fin 14) \<and>
   result (evaluate sampleEnv [''3'', ''*'', ''4'', ''+'', ''2'']
             (newFormulaEvaluator sampleMemory)) = Fin 14 \<and>
   error (evaluate sampleEnv [''3'', ''*'', ''4'', ''+'', ''2'']
            (newFormulaEvaluator sampleMemory)) = [] \<and>
   expressionTokens formulaThree = [''2'', ''+'', ''3'', ''*'', ''4''] \<and>
   expressionNumbers sampleEnv formulaThree \<and>
   expressionValue sampleEnv formulaThree = Some (Fin 14) \<and>
   result (evaluate sampleEnv [''2'', ''+'', ''3'', ''*'', ''4'']
             (newFormulaEvaluator sampleMemory)) = Fin 14 \<and>
   error (evaluate sampleEnv [''2'', ''+'', ''3'', ''*'', ''4'']
            (newFormulaEvaluator sampleMemory)) = []"
proof -
  have cells: "signsNotCells sampleEnv"
    by (simp add: signsNotCells_def isCellReference_def sample_simps)
  have tokens:
    "expressionTokens formulaOne = [''('', ''1'', ''+'', ''2'', '')'', ''*'', ''3'']"
    "expressionTokens formulaTwo = [''3'', ''*'', ''4'', ''+'', ''2'']"
    "expressionTokens formulaThree = [''2'', ''+'', ''3'', ''*'', ''4'']"
    by (simp_all add: formulaOne_def formulaTwo_def formulaThree_def addopToken_def
        mulopToken_def)
  have val: "Number sampleEnv ''1'' = Fin 1" "Number sampleEnv ''2'' = Fin 2"
      "Number sampleEnv ''3'' = Fin 3" "Number sampleEnv ''4'' = Fin 4"
    by (simp_all add: Number_simps number_simps sampleEnv_def)
  have numbers: "expressionNumbers sampleEnv formulaOne"
    "expressionNumbers sampleEnv formulaTwo" "expressionNumbers sampleEnv formulaThree"
    by (simp_all add: formulaOne_def formulaTwo_def formulaThree_def isNumber_def val)
  have "rnd sampleEnv = Some"
    by (simp add: sampleEnv_def)
  then have known: "expressionValue sampleEnv formulaOne = Some (Fin 9)"
    "expressionValue sampleEnv formulaTwo = Some (Fin 14)"
    "expressionValue sampleEnv formulaThree = Some (Fin 14)"
    by (simp_all add: formulaOne_def formulaTwo_def formulaThree_def val addopToken_def
        mulopToken_def nonZeroDivisor_def applyOperator_def orZero_def jsAdd_def jsMul_def
        fl_def)
  from evaluate_expression [OF cells numbers(1) known(1), of "newFormulaEvaluator sampleMemory"]
       evaluate_expression [OF cells numbers(2) known(2), of "newFormulaEvaluator sampleMemory"]
       evaluate_expression [OF cells numbers(3) known(3), of "newFormulaEvaluator sampleMemory"]
       cells tokens numbers known
  show ?thesis
    by (simp add: orZero_def)
qed


section \<open>A cell reference that fails\<close>

lemma getCellValue_reset: "getCellValue (reset this) token = getCellValue this token"
  by (simp add: getCellValue_def reset_def)

text \<open>
  Claim C10. In a formula of two or more tokens, let the scan reach a token that is no
  number and is a cell reference, and let \<open>getCellValue\<close> give a non-empty error for it.
  Then \<open>evaluate\<close> returns at once: the error accessor is that error and the result
  accessor is 0, whatever the operand stack \<open>operandsStack s\<close> holds at that moment.
\<close>

theorem evaluate_cell_error_returns:
  assumes "1 < length (pre @ token # post)"
    and "scanTokens E pre (initialState this) = Normal s"
    and "\<not> isNumber E token" and "isCellReference E token"
    and "getCellValue this token = (v, e)" and "e \<noteq> []"
  shows "error (evaluate E (pre @ token # post) this) = e \<and>
         result (evaluate E (pre @ token # post) this) = Fin 0"
proof -
  from scanTokens_Normal_self [OF assms(2)] have s: "self s = reset this"
    by (simp add: initialState_def)
  with assms(5) have "getCellValue (self s) token = (v, e)"
    by (simp add: getCellValue_reset)
  with assms(3,4,6) have "scanToken E token s = Return (setErrorMessage e s)"
    by (simp add: scanToken_def)
  with assms(2) have "scanTokens E (pre @ token # post) (initialState this) =
      Return (setErrorMessage e s)"
    by (simp add: scanTokens_append)
  with assms(1) s show ?thesis
    by (simp add: evaluate_multi_token tryBlock_def setErrorMessage_def reset_def)
qed

text \<open>
  The formula 1 + 2 * A1 + 4 on the sample sheet: two operands are on the stack when A1
  is resolved.
\<close>

theorem evaluate_cell_error_returns_witness:
  "1 < length ([''1'', ''+'', ''2'', ''*''] @ ''A1'' # [''+'', ''4'']) \<and>
   scanTokens sampleEnv [''1'', ''+'', ''2'', ''*''] (initialState (newFormulaEvaluator sampleMemory)) =
     Normal \<lparr>self = newFormulaEvaluator sampleMemory, operandsStack = [Fin 1, Fin 2],
             operatorsStack = [''+'', ''*'']\<rparr> \<and>
   \<not> isNumber sampleEnv ''A1'' \<and> isCellReference sampleEnv ''A1'' \<and>
   getCellValue (newFormulaEvaluator sampleMemory) ''A1'' = (Fin 0, ''#REF!'') \<and>
   error (evaluate sampleEnv ([''1'', ''+'', ''2'', ''*''] @ ''A1'' # [''+'', ''4''])
            (newFormulaEvaluator sampleMemory)) = ''#REF!'' \<and>
   result (evaluate sampleEnv ([''1'', ''+'', ''2'', ''*''] @ ''A1'' # [''+'', ''4''])
             (newFormulaEvaluator sampleMemory)) = Fin 0"
proof -
  have a: "1 < length ([''1'', ''+'', ''2'', ''*''] @ ''A1'' # [''+'', ''4''])"
    by simp
  have b: "scanTokens sampleEnv [''1'', ''+'', ''2'', ''*''] (initialState (newFormulaEvaluator sampleMemory)) =
     Normal \<lparr>self = newFormulaEvaluator sampleMemory, operandsStack = [Fin 1, Fin 2],
             operatorsStack = [''+'', ''*'']\<rparr>"
    by (simp add: number_simps Number_simps evaluate_simps sample_simps)
  have c: "\<not> isNumber sampleEnv ''A1''" and d: "isCellReference sampleEnv ''A1''"
    by (simp_all add: number_simps Number_simps evaluate_simps sample_simps)
  have e: "getCellValue (newFormulaEvaluator sampleMemory) ''A1'' = (Fin 0, ''#REF!'')"
    by (simp add: evaluate_simps sample_simps)
  from evaluate_cell_error_returns [OF a b c d e] a b c d e show ?thesis
    by simp
qed


end
